theory Spec2Isabelle
  imports Main "HOL-Library.AList"
begin

section \<open>Numbers\<close>

text \<open>
  The numbers of the handler are doubles. Those that it computes from \<open>page\<close>, \<open>limit\<close> and
  \<open>total\<close> are NaN, the two infinities and doubles whose value is an integer: \<open>Num n\<close> is the
  double with the value \<open>n\<close>. The two zeros are one value here: the handler adds,
  multiplies and compares its numbers and tests them with \<open>||\<close>, and none of these tells
  the zeros apart.
\<close>

datatype js_num = Num int | PosInf | NegInf | NaN

function bit_length :: "int \<Rightarrow> nat" where
  "bit_length n = (if n \<le> 0 then 0 else Suc (bit_length (n div 2)))"
  by pat_completeness auto
termination
  by (relation "measure nat") auto

declare bit_length.simps [simp del]

text \<open>
  The double nearest to a number that is not negative, ties to the even significand of 53
  bits; what rounds to \<open>2^1024\<close> or more is Infinity. Up to \<open>2^53\<close> every such integer is a
  double.
\<close>

definition round_magnitude :: "int \<Rightarrow> js_num" where
  "round_magnitude n =
     (if n \<le> 2 ^ 53 then Num n
      else if 2 ^ 1024 \<le> n then PosInf
      else
        (let k = bit_length n - 53;
             q = n div 2 ^ k;
             r = n mod 2 ^ k;
             q' = (if 2 ^ k < 2 * r \<or> (2 * r = 2 ^ k \<and> odd q) then q + 1 else q);
             m = q' * 2 ^ k
         in if 2 ^ 1024 \<le> m then PosInf else Num m))"

fun js_neg :: "js_num \<Rightarrow> js_num" where
  "js_neg (Num n) = Num (- n)"
| "js_neg PosInf = NegInf"
| "js_neg NegInf = PosInf"
| "js_neg NaN = NaN"

definition js_round :: "int \<Rightarrow> js_num" where
  "js_round n = (if n < 0 then js_neg (round_magnitude (- n)) else round_magnitude n)"

text \<open>\<open>a + b\<close>, \<open>a - b\<close>, \<open>a * b\<close> and \<open>a < b\<close> on these numbers.\<close>

fun js_add :: "js_num \<Rightarrow> js_num \<Rightarrow> js_num" where
  "js_add (Num a) (Num b) = js_round (a + b)"
| "js_add NaN b = NaN"
| "js_add a NaN = NaN"
| "js_add PosInf NegInf = NaN"
| "js_add NegInf PosInf = NaN"
| "js_add PosInf b = PosInf"
| "js_add a PosInf = PosInf"
| "js_add NegInf b = NegInf"
| "js_add a NegInf = NegInf"

definition js_sub :: "js_num \<Rightarrow> js_num \<Rightarrow> js_num" where
  "js_sub a b = js_add a (js_neg b)"

text \<open>An infinity times a finite number: NaN for zero, else the infinity with the product's sign.\<close>

definition inf_times :: "js_num \<Rightarrow> int \<Rightarrow> js_num" where
  "inf_times i n = (if n = 0 then NaN else if 0 < n then i else js_neg i)"

fun js_mul :: "js_num \<Rightarrow> js_num \<Rightarrow> js_num" where
  "js_mul (Num a) (Num b) = js_round (a * b)"
| "js_mul NaN b = NaN"
| "js_mul a NaN = NaN"
| "js_mul (Num a) i = inf_times i a"
| "js_mul i (Num b) = inf_times i b"
| "js_mul PosInf PosInf = PosInf"
| "js_mul NegInf NegInf = PosInf"
| "js_mul PosInf NegInf = NegInf"
| "js_mul NegInf PosInf = NegInf"

fun js_lt :: "js_num \<Rightarrow> js_num \<Rightarrow> bool" where
  "js_lt (Num a) (Num b) = (a < b)"
| "js_lt NaN b = False"
| "js_lt a NaN = False"
| "js_lt PosInf b = False"
| "js_lt a PosInf = True"
| "js_lt NegInf NegInf = False"
| "js_lt NegInf b = True"
| "js_lt a NegInf = False"

section \<open>Responses of the handlers\<close>

text \<open>
  \<open>new ErrorResponse(message, statusCode)\<close>: an error object carrying a message and a status
  code. A constructor call that passes no second argument leaves \<open>statusCode\<close> undefined,
  which is \<open>None\<close> here.
\<close>

record error_response =
  message :: string
  statusCode :: "nat option"

definition ErrorResponse :: "string \<Rightarrow> nat option \<Rightarrow> error_response" where
  "ErrorResponse msg code = \<lparr>message = msg, statusCode = code\<rparr>"

text \<open>
  The error kinds of the specification, read off the status code an \<open>ErrorResponse\<close> carries.
\<close>

datatype error_kind = NotFound | ValidationFailure | Unauthorized | UpstreamFailure

definition kind_of_status :: "nat option \<Rightarrow> error_kind option" where
  "kind_of_status code =
     (if code = Some 404 then Some NotFound
      else if code = Some 400 then Some ValidationFailure
      else if code = Some 401 then Some Unauthorized
      else if code = Some 500 then Some UpstreamFailure
      else None)"

text \<open>
  A page reference \<open>{page, limit}\<close> and the pagination object of the list response. The
  two optional properties are \<open>next\<close> and \<open>prev\<close> in the source.
\<close>

record page_ref =
  page :: js_num
  limit :: js_num

record pagination =
  pg_next :: "page_ref option"
  pg_prev :: "page_ref option"

text \<open>
  The JSON bodies the handlers send, one constructor per shape:
  \<open>{success, count, pagination, data}\<close>, \<open>{success, msg}\<close> (where \<open>msg\<close> is \<open>null\<close> when
  the lookup found nothing), \<open>{success, data: {}}\<close>, \<open>{success, data: filename}\<close> and
  \<open>{success, token}\<close>.
\<close>

datatype 'doc body =
    ListBody bool nat pagination "'doc list"
  | MsgBody bool "'doc option"
  | EmptyDataBody bool
  | NameBody bool string
  | TokenBody bool string

text \<open>
  What a handler does with a request: \<open>res.status(n).json(body)\<close>, \<open>next(err)\<close> with an
  \<open>ErrorResponse\<close>, or an exception thrown inside the handler, which the \<open>asyncHandler\<close>
  wrapper passes to \<open>next\<close> as it is.
\<close>

datatype js_error = TypeError | SyntaxError

datatype 'doc outcome =
    Json nat "'doc body"
  | Next error_response
  | Thrown js_error

definition error_kind_of :: "'doc outcome \<Rightarrow> error_kind option" where
  "error_kind_of out =
     (case out of Next err \<Rightarrow> kind_of_status (statusCode err) | _ \<Rightarrow> None)"

section \<open>The stored collections\<close>

text \<open>
  The bootcamp collection is keyed by \<open>_id\<close>, which the database keeps unique: a map from
  ids to documents. A course document refers to its bootcamp by id. Faults of the storage
  layer (a rejected promise, a request id that is not a well-formed object id) are not
  part of this model: every storage call returns.
\<close>

record bootcamp =
  bc_name :: string
  photo :: "string option"

record course =
  course_title :: string
  course_bootcamp :: string

record db =
  bootcamps :: "string \<rightharpoonup> bootcamp"
  courses :: "course list"

definition findById :: "db \<Rightarrow> string \<Rightarrow> bootcamp option" where
  "findById d i = bootcamps d i"

text \<open>\<open>Course.deleteMany({bootcamp: id})\<close> and \<open>Bootcamp.deleteOne({_id: id})\<close>.\<close>

definition deleteMany_courses :: "db \<Rightarrow> string \<Rightarrow> db" where
  "deleteMany_courses d i = d\<lparr>courses := filter (\<lambda>c. course_bootcamp c \<noteq> i) (courses d)\<rparr>"

definition deleteOne_bootcamp :: "db \<Rightarrow> string \<Rightarrow> db" where
  "deleteOne_bootcamp d i = d\<lparr>bootcamps := (bootcamps d)(i := None)\<rparr>"

text \<open>\<open>Course.countDocuments({bootcamp: id})\<close>: the child entities that refer to an id.\<close>

definition count_courses :: "db \<Rightarrow> string \<Rightarrow> nat" where
  "count_courses d i = length (filter (\<lambda>c. course_bootcamp c = i) (courses d))"

definition not_found_message :: "string \<Rightarrow> string" where
  "not_found_message i = ''Bootcamp not found with id of '' @ i"

section \<open>Single-record handlers\<close>

text \<open>
  \<open>getBootcamp\<close> tests \<open>!Bootcamp\<close>, the model that the module requires, not the document
  \<open>bootcamp\<close> it has just looked up. The model is a constructor function, so it is truthy
  on every request.
\<close>

definition Bootcamp_model_truthy :: bool where
  "Bootcamp_model_truthy = True"

definition getBootcamp :: "db \<Rightarrow> string \<Rightarrow> bootcamp outcome" where
  "getBootcamp d i =
     (let bootcamp = findById d i in
      if \<not> Bootcamp_model_truthy
      then Next (ErrorResponse (not_found_message i) (Some 404))
      else Json 200 (MsgBody True bootcamp))"

text \<open>\<open>deleteBootcamp\<close> returns the new state of the collections with its outcome.\<close>

definition deleteBootcamp :: "db \<Rightarrow> string \<Rightarrow> bootcamp outcome \<times> db" where
  "deleteBootcamp d i =
     (case findById d i of
        None \<Rightarrow> (Next (ErrorResponse (not_found_message i) (Some 404)), d)
      | Some bootcamp \<Rightarrow>
          (let d1 = deleteMany_courses d i;
               d2 = deleteOne_bootcamp d1 i
           in (Json 200 (EmptyDataBody True), d2)))"

section \<open>Photo upload\<close>

text \<open>
  The uploaded file as the upload middleware presents it, and the configuration read from
  the environment. \<open>MAX_FILE_UPLOAD\<close> is a string in the environment: the comparison
  \<open>file.size > process.env.MAX_FILE_UPLOAD\<close> converts it to a number, and the message
  interpolates its text. \<open>MAX_FILE_UPLOAD\<close> holds the number (\<open>None\<close> when the conversion
  gives NaN, with which every comparison is false) and \<open>MAX_FILE_UPLOAD_text\<close> the text.
  \<open>path_ext\<close> is \<open>path.parse(name).ext\<close> and \<open>mv_fails\<close> says for which target paths the
  file store reports an error to the callback of \<open>file.mv\<close>.
\<close>

record upload =
  file_name :: string
  mimetype :: string
  file_size :: int

record env =
  MAX_FILE_UPLOAD :: "int option"
  MAX_FILE_UPLOAD_text :: string
  FILE_UPLOAD_PATH :: string
  path_ext :: "string \<Rightarrow> string"
  mv_fails :: "string \<Rightarrow> bool"

text \<open>The state a photo upload can change: the collections and the paths written by \<open>file.mv\<close>.\<close>

record state =
  st_db :: db
  st_files :: "string list"

definition startsWith :: "string \<Rightarrow> string \<Rightarrow> bool" where
  "startsWith s p = (take (length p) s = p)"

definition js_gt :: "int \<Rightarrow> int option \<Rightarrow> bool" where
  "js_gt a b = (case b of None \<Rightarrow> False | Some n \<Rightarrow> a > n)"

text \<open>\<open>Bootcamp.findByIdAndUpdate(id, {photo: name})\<close>.\<close>

definition findByIdAndUpdate_photo :: "db \<Rightarrow> string \<Rightarrow> string \<Rightarrow> db" where
  "findByIdAndUpdate_photo d i name =
     (case bootcamps d i of
        None \<Rightarrow> d
      | Some b \<Rightarrow> d\<lparr>bootcamps := (bootcamps d)(i \<mapsto> b\<lparr>photo := Some name\<rparr>)\<rparr>)"

text \<open>
  \<open>req.files\<close> is \<open>None\<close> when the request carries no upload, \<open>Some None\<close> when it carries
  uploads but none under the field \<open>file\<close> (reading \<open>file.mimetype\<close> then throws), and
  \<open>Some (Some f)\<close> otherwise.
\<close>

definition bootcampPhotoUpload ::
    "env \<Rightarrow> state \<Rightarrow> string \<Rightarrow> upload option option \<Rightarrow> bootcamp outcome \<times> state" where
  "bootcampPhotoUpload e st i files =
     (case findById (st_db st) i of
        None \<Rightarrow> (Next (ErrorResponse (not_found_message i) (Some 404)), st)
      | Some bootcamp \<Rightarrow>
         (case files of
            None \<Rightarrow> (Next (ErrorResponse ''Please upload a file'' (Some 400)), st)
          | Some None \<Rightarrow> (Thrown TypeError, st)
          | Some (Some file) \<Rightarrow>
              if \<not> startsWith (mimetype file) ''image''
              then (Next (ErrorResponse ''Please upload a file'' (Some 400)), st)
              else if js_gt (file_size file) (MAX_FILE_UPLOAD e)
              then (Next (ErrorResponse
                      (''Please upload an image less than '' @ MAX_FILE_UPLOAD_text e) None), st)
              else
                (let name = ''Photo_'' @ i @ path_ext e (file_name file);
                     target = FILE_UPLOAD_PATH e @ ''/'' @ name
                 in if mv_fails e target
                    then (Next (ErrorResponse ''Problem with file upload'' (Some 500)), st)
                    else (Json 200 (NameBody True name),
                          \<lparr>st_db = findByIdAndUpdate_photo (st_db st) i name,
                           st_files = target # st_files st\<rparr>))))"

section \<open>Login\<close>

text \<open>
  The user collection and the credential service: \<open>matchPassword\<close> compares an entered
  password with the stored hash, \<open>getSignedJwtToken\<close> signs a token for a user. The body
  fields \<open>email\<close> and \<open>password\<close> are strings when present; \<open>!x\<close> holds of an absent field
  and of the empty string.
\<close>

record user =
  user_email :: string
  user_password :: string

record auth =
  users :: "user list"
  matchPassword :: "user \<Rightarrow> string \<Rightarrow> bool"
  getSignedJwtToken :: "user \<Rightarrow> string"

definition falsy :: "string option \<Rightarrow> bool" where
  "falsy x = (case x of None \<Rightarrow> True | Some s \<Rightarrow> s = [])"

text \<open>The string of a field that is present.\<close>

definition field_text :: "string option \<Rightarrow> string" where
  "field_text x = (case x of None \<Rightarrow> [] | Some s \<Rightarrow> s)"

definition findOne_user :: "auth \<Rightarrow> string \<Rightarrow> user option" where
  "findOne_user a e = find (\<lambda>u. user_email u = e) (users a)"

definition login :: "auth \<Rightarrow> string option \<Rightarrow> string option \<Rightarrow> bootcamp outcome" where
  "login a email password =
     (if falsy email \<or> falsy password
      then Next (ErrorResponse ''Please provide an email and password'' (Some 400))
      else
        (case findOne_user a (field_text email) of
           None \<Rightarrow> Next (ErrorResponse ''Invalid credentials'' (Some 401))
         | Some u \<Rightarrow>
             if \<not> matchPassword a u (field_text password)
             then Next (ErrorResponse ''Invalid credentials'' (Some 401))
             else Json 200 (TokenBody True (getSignedJwtToken a u))))"

section \<open>The raw query and its serialisation\<close>

text \<open>
  \<open>req.query\<close> as the query-string parser delivers it: every value is a string, an array
  of values or a nested object (\<open>price[gt]=5\<close> gives \<open>{price: {gt: "5"}}\<close>). An object is
  the list of its properties in the order in which they are enumerated. A string is the
  UTF-8 text of the string of the source: a character of ASCII is one byte, and every
  other character is a sequence of bytes from 128 upwards. The serialisation and the
  regular expression treat all characters beyond ASCII alike (none is a word character,
  each is copied), so they work byte by byte on this text. A surrogate that is not half of
  a pair has no UTF-8 text; the decoding of a query string does not produce one.
\<close>

datatype qval = QStr string | QArr "qval list" | QObj "(string \<times> qval) list"

type_synonym raw_query = "(string \<times> qval) list"

definition removeFields :: "string list" where
  "removeFields = [''select'', ''sort'', ''page'', ''limit'']"

text \<open>\<open>removeFields.forEach(param => delete reqQuery[param])\<close> on the copy of the query.\<close>

definition delete_fields :: "raw_query \<Rightarrow> raw_query" where
  "delete_fields q = foldl (\<lambda>reqQuery param. AList.delete param reqQuery) q removeFields"

text \<open>
  \<open>JSON.stringify\<close> on such a value. Inside a string literal the quotation mark, the
  backslash and the control characters are escaped: the short forms for backspace, form
  feed, line feed, carriage return and tab, and \<open>\u00XX\<close> with lower-case hexadecimal
  digits for the other characters below U+0020. Nothing else is changed and no white
  space is emitted.
\<close>

definition dquote :: char where
  "dquote = CHR 0x22"

definition backslash :: char where
  "backslash = CHR 0x5C"

definition hex_digit :: "nat \<Rightarrow> char" where
  "hex_digit n = (if n < 10 then char_of (48 + n) else char_of (87 + n))"

definition esc_char :: "char \<Rightarrow> string" where
  "esc_char c =
     (let n = (of_char c :: nat) in
      if c = dquote then [backslash, dquote]
      else if c = backslash then [backslash, backslash]
      else if n = 8 then [backslash, CHR ''b'']
      else if n = 12 then [backslash, CHR ''f'']
      else if n = 10 then [backslash, CHR ''n'']
      else if n = 13 then [backslash, CHR ''r'']
      else if n = 9 then [backslash, CHR ''t'']
      else if n < 32 then [backslash, CHR ''u'', CHR ''0'', CHR ''0'',
                           hex_digit (n div 16), hex_digit (n mod 16)]
      else [c])"

definition esc_string :: "string \<Rightarrow> string" where
  "esc_string s = concat (map esc_char s)"

definition quote :: "string \<Rightarrow> string" where
  "quote s = dquote # esc_string s @ [dquote]"

fun join_comma :: "string list \<Rightarrow> string" where
  "join_comma [] = []"
| "join_comma [x] = x"
| "join_comma (x # y # ys) = x @ CHR '','' # join_comma (y # ys)"

fun stringify :: "qval \<Rightarrow> string" where
  "stringify (QStr s) = quote s"
| "stringify (QArr vs) = CHR ''['' # join_comma (map stringify vs) @ '']''"
| "stringify (QObj ms) =
     CHR ''{'' # join_comma (map (\<lambda>(k, v). quote k @ CHR '':'' # stringify v) ms) @ ''}''"

section \<open>The operator rewrite\<close>

text \<open>
  \<open>queryStr.replace(/\b(gt|gte|lt|lte|in)\b/g, match => `$${match}`)\<close>. A word character
  is one of \<open>[A-Za-z0-9_]\<close>; \<open>\b\<close> holds between a word character and a character that
  is not one, and at either end of the text next to a word character.
\<close>

definition is_word :: "char \<Rightarrow> bool" where
  "is_word c =
     (let n = (of_char c :: nat) in
      (48 \<le> n \<and> n \<le> 57) \<or> (65 \<le> n \<and> n \<le> 90) \<or> n = 95 \<or> (97 \<le> n \<and> n \<le> 122))"

definition operators :: "string list" where
  "operators = [''gt'', ''gte'', ''lt'', ''lte'', ''in'']"

fun boundary_after :: "string \<Rightarrow> bool" where
  "boundary_after [] = True"
| "boundary_after (c # cs) = (\<not> is_word c)"

text \<open>
  \<open>match_here t s\<close>: the text \<open>s\<close> begins with the alternative \<open>t\<close> and the closing \<open>\b\<close>
  holds after it (every alternative ends in a word character).
\<close>

fun match_here :: "string \<Rightarrow> string \<Rightarrow> bool" where
  "match_here [] s = boundary_after s"
| "match_here (x # xs) [] = False"
| "match_here (x # xs) (c # cs) = (x = c \<and> match_here xs cs)"

definition op_match :: "string \<Rightarrow> bool" where
  "op_match s = list_ex (\<lambda>t. match_here t s) operators"

text \<open>
  One attempt of the regular expression at a position behind which the opening \<open>\b\<close>
  holds: the first alternative, in the order in which they are written, behind which the
  closing \<open>\b\<close> holds.
\<close>

definition first_alternative :: "string \<Rightarrow> string option" where
  "first_alternative s = find (\<lambda>t. match_here t s) operators"

text \<open>
  The global replacement. \<open>prev\<close> says whether the character before the position is a
  word character; every alternative begins with a word character, so the opening \<open>\b\<close>
  holds exactly where \<open>prev\<close> is false. Where the expression matches, the match is
  replaced by \<open>$\<close> and the match itself, and the search resumes behind the match;
  elsewhere the character is copied.
\<close>

function regex_replace :: "bool \<Rightarrow> string \<Rightarrow> string" where
  "regex_replace prev [] = []"
| "regex_replace prev (c # cs) =
     (if prev then c # regex_replace (is_word c) cs
      else
        (case first_alternative (c # cs) of
           None \<Rightarrow> c # regex_replace (is_word c) cs
         | Some t \<Rightarrow> CHR ''$'' # t @ regex_replace True (drop (length t) (c # cs))))"
  by pat_completeness auto
termination
  by (relation "measure (\<lambda>(prev, s). length s)")
    (auto simp: first_alternative_def operators_def split: if_splits)

text \<open>
  The same replacement as a single scan, for the proofs: a position where the expression
  matches gets \<open>$\<close> in front, and every character is copied (lemma \<open>regex_replace_scan\<close>
  below).
\<close>

fun replace_ops :: "bool \<Rightarrow> string \<Rightarrow> string" where
  "replace_ops prev [] = []"
| "replace_ops prev (c # cs) =
     (if \<not> prev \<and> op_match (c # cs)
      then CHR ''$'' # c # replace_ops (is_word c) cs
      else c # replace_ops (is_word c) cs)"

section \<open>Parsing the rewritten text\<close>

text \<open>
  \<open>JSON.parse\<close> on the grammar that \<open>JSON.stringify\<close> emits for a query value: string
  literals with their escapes, arrays and objects, without white space. A raw control
  character inside a string literal is a syntax error. The serialisation writes \<open>\u\<close>
  escapes for control characters only; the parser reads those of ASCII and takes no
  other.
\<close>

definition hex_val :: "char \<Rightarrow> nat option" where
  "hex_val c =
     (let n = (of_char c :: nat) in
      if 48 \<le> n \<and> n \<le> 57 then Some (n - 48)
      else if 97 \<le> n \<and> n \<le> 102 then Some (n - 87)
      else if 65 \<le> n \<and> n \<le> 70 then Some (n - 55)
      else None)"

definition unicode_escape :: "char \<Rightarrow> char \<Rightarrow> char \<Rightarrow> char \<Rightarrow> char option" where
  "unicode_escape h1 h2 h3 h4 =
     (case (hex_val h1, hex_val h2, hex_val h3, hex_val h4) of
        (Some a, Some b, Some c, Some d) \<Rightarrow>
          (let n = 4096 * a + 256 * b + 16 * c + d in
           if n < 128 then Some (char_of n) else None)
      | _ \<Rightarrow> None)"

definition unesc_simple :: "char \<Rightarrow> char option" where
  "unesc_simple e =
     (if e = dquote then Some dquote
      else if e = backslash then Some backslash
      else if e = CHR ''/'' then Some CHR ''/''
      else if e = CHR ''b'' then Some (char_of (8 :: nat))
      else if e = CHR ''f'' then Some (char_of (12 :: nat))
      else if e = CHR ''n'' then Some (char_of (10 :: nat))
      else if e = CHR ''r'' then Some (char_of (13 :: nat))
      else if e = CHR ''t'' then Some (char_of (9 :: nat))
      else None)"

definition cons_result :: "'a \<Rightarrow> ('a list \<times> 'b) option \<Rightarrow> ('a list \<times> 'b) option" where
  "cons_result x r = map_option (\<lambda>(xs, rest). (x # xs, rest)) r"

text \<open>The characters of a string literal behind its opening quotation mark.\<close>

fun parse_chars :: "string \<Rightarrow> (string \<times> string) option" where
  "parse_chars [] = None"
| "parse_chars (c # cs) =
     (if c = dquote then Some ([], cs)
      else if c = backslash then
        (case cs of
           [] \<Rightarrow> None
         | e # r \<Rightarrow>
            if e = CHR ''u'' then
              (case r of
                 h1 # h2 # h3 # h4 # r' \<Rightarrow>
                   (case unicode_escape h1 h2 h3 h4 of
                      None \<Rightarrow> None
                    | Some x \<Rightarrow> cons_result x (parse_chars r'))
               | _ \<Rightarrow> None)
            else
              (case unesc_simple e of
                 None \<Rightarrow> None
               | Some x \<Rightarrow> cons_result x (parse_chars r)))
      else if (of_char c :: nat) < 32 then None
      else cons_result c (parse_chars cs))"

text \<open>
  An object literal that names a key twice keeps the key at its first position with the
  last value.
\<close>

definition object_of_members :: "(string \<times> qval) list \<Rightarrow> (string \<times> qval) list" where
  "object_of_members ms = foldl (\<lambda>obj (k, v). AList.update k v obj) [] ms"

text \<open>
  The recursive descent, with fuel for the nesting: every call spends one unit, and
  \<open>JSON_parse\<close> starts with the length of the text, which is enough for every text
  (lemma \<open>parse_value_stringify\<close> below).
\<close>

fun parse_value :: "nat \<Rightarrow> string \<Rightarrow> (qval \<times> string) option"
  and parse_elements :: "nat \<Rightarrow> string \<Rightarrow> (qval list \<times> string) option"
  and parse_members :: "nat \<Rightarrow> string \<Rightarrow> ((string \<times> qval) list \<times> string) option"
where
  "parse_value 0 s = None"
| "parse_value (Suc n) s =
     (case s of
        [] \<Rightarrow> None
      | c # r \<Rightarrow>
         if c = dquote then map_option (\<lambda>(x, rest). (QStr x, rest)) (parse_chars r)
         else if c = CHR ''['' then
           (case r of
              [] \<Rightarrow> None
            | c' # r' \<Rightarrow>
               if c' = CHR '']'' then Some (QArr [], r')
               else map_option (\<lambda>(vs, rest). (QArr vs, rest)) (parse_elements n r))
         else if c = CHR ''{'' then
           (case r of
              [] \<Rightarrow> None
            | c' # r' \<Rightarrow>
               if c' = CHR ''}'' then Some (QObj [], r')
               else map_option (\<lambda>(ms, rest). (QObj (object_of_members ms), rest))
                      (parse_members n r))
         else None)"
| "parse_elements 0 s = None"
| "parse_elements (Suc n) s =
     (case parse_value n s of
        None \<Rightarrow> None
      | Some (v, r) \<Rightarrow>
         (case r of
            [] \<Rightarrow> None
          | c # r' \<Rightarrow>
             if c = CHR '','' then cons_result v (parse_elements n r')
             else if c = CHR '']'' then Some ([v], r')
             else None))"
| "parse_members 0 s = None"
| "parse_members (Suc n) s =
     (case s of
        [] \<Rightarrow> None
      | c # r \<Rightarrow>
         if c \<noteq> dquote then None
         else
           (case parse_chars r of
              None \<Rightarrow> None
            | Some (k, r1) \<Rightarrow>
               (case r1 of
                  [] \<Rightarrow> None
                | c1 # r2 \<Rightarrow>
                   if c1 \<noteq> CHR '':'' then None
                   else
                     (case parse_value n r2 of
                        None \<Rightarrow> None
                      | Some (v, r3) \<Rightarrow>
                         (case r3 of
                            [] \<Rightarrow> None
                          | c3 # r4 \<Rightarrow>
                             if c3 = CHR '','' then cons_result (k, v) (parse_members n r4)
                             else if c3 = CHR ''}'' then Some ([(k, v)], r4)
                             else None)))))"

definition JSON_parse :: "string \<Rightarrow> js_error + qval" where
  "JSON_parse s =
     (case parse_value (length s) s of
        Some (v, []) \<Rightarrow> Inr v
      | _ \<Rightarrow> Inl SyntaxError)"

section \<open>The filter of the list request\<close>

text \<open>
  Lines 15 to 32 of the handler: copy the query, delete the control fields, serialise,
  rewrite the operators, parse. The result is the filter handed to \<open>Bootcamp.find\<close>.
\<close>

definition translate :: "raw_query \<Rightarrow> js_error + qval" where
  "translate q =
     (let reqQuery = delete_fields q;
          queryStr = stringify (QObj reqQuery);
          queryStr' = regex_replace False queryStr
      in JSON_parse queryStr')"

section \<open>Page and limit\<close>

text \<open>
  \<open>parseInt(x, 10)\<close> converts its argument to a string first. An absent parameter is
  \<open>undefined\<close> and reads as the text \<open>undefined\<close>. An array reads as the strings of its
  elements joined by commas. An object reads as \<open>[object Object]\<close>, unless it has a
  property \<open>toString\<close> of its own: the query parser of the framework admits such a key
  (\<open>?page[toString]=x\<close>), its value is a string, an array or an object and so not a
  function, and the conversion throws a TypeError.
\<close>

fun collect_strings :: "(js_error + string) list \<Rightarrow> js_error + string list" where
  "collect_strings [] = Inr []"
| "collect_strings (x # xs) =
     (case x of
        Inl e \<Rightarrow> Inl e
      | Inr s \<Rightarrow> (case collect_strings xs of Inl e \<Rightarrow> Inl e | Inr ss \<Rightarrow> Inr (s # ss)))"

fun js_to_string :: "qval \<Rightarrow> js_error + string" where
  "js_to_string (QStr s) = Inr s"
| "js_to_string (QArr vs) =
     (case collect_strings (map js_to_string vs) of
        Inl e \<Rightarrow> Inl e
      | Inr ss \<Rightarrow> Inr (join_comma ss))"
| "js_to_string (QObj ms) =
     (if ''toString'' \<in> fst ` set ms then Inl TypeError else Inr ''[object Object]'')"


definition param_string :: "raw_query \<Rightarrow> string \<Rightarrow> js_error + string" where
  "param_string q k = (case map_of q k of None \<Rightarrow> Inr ''undefined'' | Some v \<Rightarrow> js_to_string v)"

text \<open>
  The white space and line terminators that \<open>parseInt\<close> skips at the start, each as its
  UTF-8 text: U+0009 to U+000D, U+0020, U+00A0, U+1680, U+2000 to U+200A, U+2028, U+2029,
  U+202F, U+205F, U+3000 and U+FEFF.
\<close>

definition white_space_chars :: "string list" where
  "white_space_chars =
     [[CHR 0x09], [CHR 0x0A], [CHR 0x0B], [CHR 0x0C], [CHR 0x0D], [CHR 0x20],
      [CHR 0xC2, CHR 0xA0],
      [CHR 0xE1, CHR 0x9A, CHR 0x80],
      [CHR 0xE2, CHR 0x80, CHR 0x80], [CHR 0xE2, CHR 0x80, CHR 0x81],
      [CHR 0xE2, CHR 0x80, CHR 0x82], [CHR 0xE2, CHR 0x80, CHR 0x83],
      [CHR 0xE2, CHR 0x80, CHR 0x84], [CHR 0xE2, CHR 0x80, CHR 0x85],
      [CHR 0xE2, CHR 0x80, CHR 0x86], [CHR 0xE2, CHR 0x80, CHR 0x87],
      [CHR 0xE2, CHR 0x80, CHR 0x88], [CHR 0xE2, CHR 0x80, CHR 0x89],
      [CHR 0xE2, CHR 0x80, CHR 0x8A],
      [CHR 0xE2, CHR 0x80, CHR 0xA8], [CHR 0xE2, CHR 0x80, CHR 0xA9],
      [CHR 0xE2, CHR 0x80, CHR 0xAF],
      [CHR 0xE2, CHR 0x81, CHR 0x9F],
      [CHR 0xE3, CHR 0x80, CHR 0x80],
      [CHR 0xEF, CHR 0xBB, CHR 0xBF]]"

fun trim_start :: "string \<Rightarrow> string" where
  "trim_start [] = []"
| "trim_start (c # cs) =
     (if [c] \<in> set white_space_chars then trim_start cs
      else
        (case cs of
           [] \<Rightarrow> c # cs
         | d # r \<Rightarrow>
            if [c, d] \<in> set white_space_chars then trim_start r
            else
              (case r of
                 [] \<Rightarrow> c # cs
               | e # r' \<Rightarrow>
                  if [c, d, e] \<in> set white_space_chars then trim_start r' else c # cs)))"

definition is_digit :: "char \<Rightarrow> bool" where
  "is_digit c = (48 \<le> (of_char c :: nat) \<and> (of_char c :: nat) \<le> 57)"

definition digits_value :: "string \<Rightarrow> int" where
  "digits_value ds = foldl (\<lambda>a c. 10 * a + (int (of_char c) - 48)) 0 ds"

text \<open>
  \<open>parseInt(s, 10)\<close> on a string: skip the leading white space, read an optional sign and
  the longest run of decimal digits; NaN when there is no digit, else the double nearest
  to the number read, which is Infinity from \<open>2^1024\<close> on. (The standard lets an
  implementation approximate the digits behind the twentieth; the engine of Node.js
  converts the digits with its correctly rounding conversion.)
\<close>

definition parseInt10 :: "string \<Rightarrow> js_num" where
  "parseInt10 s =
     (let t = trim_start s;
          (negative, u) = (case t of
                             [] \<Rightarrow> (False, [])
                           | c # r \<Rightarrow> if c = CHR ''-'' then (True, r)
                                      else if c = CHR ''+'' then (False, r)
                                      else (False, t));
          ds = takeWhile is_digit u
      in if ds = [] then NaN
         else if negative then js_neg (js_round (digits_value ds))
         else js_round (digits_value ds))"

text \<open>\<open>n || d\<close> on a number: \<open>d\<close> when \<open>n\<close> is NaN or zero.\<close>

definition or_default :: "js_num \<Rightarrow> js_num \<Rightarrow> js_num" where
  "or_default n d = (if n = NaN \<or> n = Num 0 then d else n)"

text \<open>\<open>parseInt(req.query[k], 10) || d\<close>.\<close>

definition read_param :: "raw_query \<Rightarrow> string \<Rightarrow> js_num \<Rightarrow> js_error + js_num" where
  "read_param q k d =
     (case param_string q k of
        Inl e \<Rightarrow> Inl e
      | Inr s \<Rightarrow> Inr (or_default (parseInt10 s) d))"

definition page_of :: "raw_query \<Rightarrow> js_error + js_num" where
  "page_of q = read_param q ''page'' (Num 1)"

definition limit_of :: "raw_query \<Rightarrow> js_error + js_num" where
  "limit_of q = read_param q ''limit'' (Num 25)"

definition startIndex :: "js_num \<Rightarrow> js_num \<Rightarrow> js_num" where
  "startIndex pg lim = js_mul (js_sub pg (Num 1)) lim"

definition endIndex :: "js_num \<Rightarrow> js_num \<Rightarrow> js_num" where
  "endIndex pg lim = js_mul pg lim"

text \<open>The pagination object built in lines 61 to 75 from \<open>page\<close>, \<open>limit\<close> and \<open>total\<close>.\<close>

definition pagination_result :: "js_num \<Rightarrow> js_num \<Rightarrow> js_num \<Rightarrow> pagination" where
  "pagination_result pg lim tot =
     (let p0 = \<lparr>pg_next = None, pg_prev = None\<rparr>;
          p1 = (if js_lt (endIndex pg lim) tot
                then p0\<lparr>pg_next := Some \<lparr>page = js_add pg (Num 1), limit = lim\<rparr>\<rparr> else p0);
          p2 = (if js_lt (Num 0) (startIndex pg lim)
                then p1\<lparr>pg_prev := Some \<lparr>page = js_sub pg (Num 1), limit = lim\<rparr>\<rparr> else p1)
      in p2)"

section \<open>The list handler\<close>

text \<open>
  The query object that the handler builds step by step before it awaits it.
\<close>

record query =
  q_filter :: qval
  q_populate :: "string list"
  q_select :: "string option"
  q_sort :: "string option"
  q_skip :: "js_num option"
  q_limit :: "js_num option"

definition Bootcamp_find :: "qval \<Rightarrow> query" where
  "Bootcamp_find f =
     \<lparr>q_filter = f, q_populate = [], q_select = None, q_sort = None,
      q_skip = None, q_limit = None\<rparr>"

text \<open>
  The storage collaborator behind \<open>Bootcamp\<close>: the documents of the collection, which
  documents a filter matches, and what population, projection, sorting, skipping and
  limiting do with the matching documents of a query.
\<close>

record 'doc storage =
  documents :: "'doc list"
  matches :: "qval \<Rightarrow> 'doc \<Rightarrow> bool"
  shape :: "query \<Rightarrow> 'doc list \<Rightarrow> 'doc list"

definition await_query :: "'doc storage \<Rightarrow> query \<Rightarrow> 'doc list" where
  "await_query st qu = shape st qu (filter (matches st (q_filter qu)) (documents st))"

text \<open>\<open>Bootcamp.countDocuments()\<close>, called without a filter: every document counts.\<close>

definition countDocuments :: "'doc storage \<Rightarrow> js_num" where
  "countDocuments st = js_round (int (length (documents st)))"

text \<open>The count that a filter would give: the documents it matches.\<close>

definition countDocuments_matching :: "'doc storage \<Rightarrow> qval \<Rightarrow> js_num" where
  "countDocuments_matching st f = js_round (int (length (filter (matches st f) (documents st))))"

text \<open>
  \<open>req.query.select.split(',').join(' ')\<close>: every comma becomes a space. The branch is
  taken when the parameter is truthy, that is, present and not the empty string; an array
  or an object is truthy and has no \<open>split\<close>, so the call throws.
\<close>

definition split_join :: "string \<Rightarrow> string" where
  "split_join s = map (\<lambda>c. if c = CHR '','' then CHR '' '' else c) s"

definition directive :: "raw_query \<Rightarrow> string \<Rightarrow> js_error + string option" where
  "directive q k =
     (case map_of q k of
        None \<Rightarrow> Inr None
      | Some (QStr s) \<Rightarrow> if s = [] then Inr None else Inr (Some (split_join s))
      | Some (QArr vs) \<Rightarrow> Inl TypeError
      | Some (QObj ms) \<Rightarrow> Inl TypeError)"

definition getBootcamps :: "'doc storage \<Rightarrow> raw_query \<Rightarrow> 'doc outcome" where
  "getBootcamps st q =
     (case translate q of
        Inl e \<Rightarrow> Thrown e
      | Inr f \<Rightarrow>
         (let query0 = (Bootcamp_find f)\<lparr>q_populate := [''courses'']\<rparr> in
          case directive q ''select'' of
            Inl e \<Rightarrow> Thrown e
          | Inr sel \<Rightarrow>
             (let query1 = (case sel of None \<Rightarrow> query0
                            | Some flds \<Rightarrow> query0\<lparr>q_select := Some flds\<rparr>) in
              case directive q ''sort'' of
                Inl e \<Rightarrow> Thrown e
              | Inr srt \<Rightarrow>
                 (let query2 = (case srt of None \<Rightarrow> query1\<lparr>q_sort := Some ''-createdAt''\<rparr>
                                | Some sortBy \<Rightarrow> query1\<lparr>q_sort := Some sortBy\<rparr>) in
                  case page_of q of
                    Inl e \<Rightarrow> Thrown e
                  | Inr pg \<Rightarrow>
                     (case limit_of q of
                        Inl e \<Rightarrow> Thrown e
                      | Inr lim \<Rightarrow>
                         (let tot = countDocuments st;
                              query3 = query2\<lparr>q_skip := Some (startIndex pg lim),
                                              q_limit := Some lim\<rparr>;
                              found = await_query st query3;
                              pagination = pagination_result pg lim tot
                          in Json 200 (ListBody True (length found) pagination found)))))))"

section \<open>The translation described on the query itself\<close>

text \<open>
  What serialising, rewriting and parsing again amount to on the query value, for
  comparison with \<open>translate\<close> (theorem \<open>translate_rewrites_whole_words\<close> below).

  The rewrite works on the serialised text, where a control character stands as an escape
  that ends in a letter or a digit: \<open>ends_in_word c\<close> says whether the text of the
  character \<open>c\<close> ends in a word character. \<open>rewrite_string\<close> puts \<open>$\<close> before every
  operator word of a string that the rewrite of the text finds there.
\<close>

definition ends_in_word :: "char \<Rightarrow> bool" where
  "ends_in_word c = (is_word c \<or> (of_char c :: nat) < 32)"

fun rewrite_string :: "bool \<Rightarrow> string \<Rightarrow> string" where
  "rewrite_string prev [] = []"
| "rewrite_string prev (c # cs) =
     (if \<not> prev \<and> op_match (c # cs)
      then CHR ''$'' # c # rewrite_string (ends_in_word c) cs
      else c # rewrite_string (ends_in_word c) cs)"

text \<open>Every key and every string of a value rewritten, at every depth.\<close>

fun rewrite :: "qval \<Rightarrow> qval" where
  "rewrite (QStr s) = QStr (rewrite_string False s)"
| "rewrite (QArr vs) = QArr (map rewrite vs)"
| "rewrite (QObj ms) = QObj (map (\<lambda>(k, v). (rewrite_string False k, rewrite v)) ms)"

text \<open>
  Parsing the text of a value gives the value back, except that an object which lists a
  key more than once comes back with one property for it.
\<close>

fun normalise :: "qval \<Rightarrow> qval" where
  "normalise (QStr s) = QStr s"
| "normalise (QArr vs) = QArr (map normalise vs)"
| "normalise (QObj ms) = QObj (object_of_members (map (\<lambda>(k, v). (k, normalise v)) ms))"

text \<open>
  \<open>has_op False s\<close>: the string \<open>s\<close> has one of the five operators as a whole word, that
  is, the regular expression of the rewrite matches somewhere in \<open>s\<close>.
\<close>

fun has_op :: "bool \<Rightarrow> string \<Rightarrow> bool" where
  "has_op prev [] = False"
| "has_op prev (c # cs) = ((\<not> prev \<and> op_match (c # cs)) \<or> has_op (is_word c) cs)"

text \<open>The fuel that parsing the text of a value needs; the length of the text covers it.\<close>

fun fuel_of :: "qval \<Rightarrow> nat" where
  "fuel_of (QStr s) = 1"
| "fuel_of (QArr vs) = Suc (sum_list (map (\<lambda>v. Suc (fuel_of v)) vs))"
| "fuel_of (QObj ms) = Suc (sum_list (map (\<lambda>(k, v). Suc (fuel_of v)) ms))"

section \<open>The translation as the specification words it\<close>

text \<open>
  The specification's Filter Translator, for comparison with \<open>translate\<close>: the control
  keys are removed; a nested key that is one of the five operator keywords becomes the
  comparison operator (written with \<open>$\<close>) under its outer key; every other key and every
  literal value is left as it is.
\<close>

fun spec_value :: "qval \<Rightarrow> qval" where
  "spec_value (QStr s) = QStr s"
| "spec_value (QArr vs) = QArr (map spec_value vs)"
| "spec_value (QObj ms) =
     QObj (map (\<lambda>(k, v). (if k \<in> set operators then CHR ''$'' # k else k, spec_value v)) ms)"

definition spec_translate :: "raw_query \<Rightarrow> qval" where
  "spec_translate q = QObj (map (\<lambda>(k, v). (k, spec_value v)) (delete_fields q))"

text \<open>
  The queries on which the two agree: no field name and no literal value has an operator
  as a whole word, and a nested key either is an operator or has none as a whole word.
\<close>

fun clean_value :: "qval \<Rightarrow> bool" where
  "clean_value (QStr s) = (\<not> has_op False s)"
| "clean_value (QArr vs) = list_all clean_value vs"
| "clean_value (QObj ms) =
     list_all (\<lambda>(k, v). (k \<in> set operators \<or> \<not> has_op False k) \<and> clean_value v) ms"

definition clean_query :: "raw_query \<Rightarrow> bool" where
  "clean_query q = list_all (\<lambda>(k, v). \<not> has_op False k \<and> clean_value v) (delete_fields q)"

section \<open>Properties of the single-record handlers\<close>

text \<open>
  Claim C2 says that \<open>GET /bootcamps/:id\<close> answers an id that matches no stored bootcamp
  with a NotFound error (status 404). The handler does not: its guard tests the model
  \<open>Bootcamp\<close> instead of the document \<open>bootcamp\<close>, so on an empty collection the request
  for any id is answered with status 200 and the body \<open>{success: true, msg: null}\<close>.
\<close>

theorem getBootcamp_missing_id_succeeds:
  "getBootcamp \<lparr>bootcamps = Map.empty, courses = []\<rparr> ''5d713995b721c3bb38c1f5d0''
     = Json 200 (MsgBody True None)"
  by (simp add: getBootcamp_def findById_def Bootcamp_model_truthy_def)

text \<open>The same on every collection and every id: the 404 branch is never taken.\<close>

lemma getBootcamp_always_succeeds:
  "getBootcamp d i = Json 200 (MsgBody True (findById d i))"
  by (simp add: getBootcamp_def Bootcamp_model_truthy_def)

text \<open>
  Claim C9: for every bootcamp id present in storage, after \<open>DELETE /bootcamps/:id\<close> the
  bootcamp is removed, no course refers to that id any more, and the response is status
  200 with the body \<open>{success: true, data: {}}\<close>.
\<close>

theorem deleteBootcamp_cascades:
  assumes "findById d i = Some b"
  shows "fst (deleteBootcamp d i) = Json 200 (EmptyDataBody True)
       \<and> findById (snd (deleteBootcamp d i)) i = None
       \<and> count_courses (snd (deleteBootcamp d i)) i = 0"
  using assms
  by (simp add: deleteBootcamp_def findById_def deleteOne_bootcamp_def deleteMany_courses_def
      count_courses_def)

theorem deleteBootcamp_cascades_witness:
  "findById \<lparr>bootcamps = [''b1'' \<mapsto> \<lparr>bc_name = ''Devworks'', photo = None\<rparr>],
             courses = [\<lparr>course_title = ''Web'', course_bootcamp = ''b1''\<rparr>,
                        \<lparr>course_title = ''UX'', course_bootcamp = ''b2''\<rparr>]\<rparr> ''b1''
     = Some \<lparr>bc_name = ''Devworks'', photo = None\<rparr>
   \<and> deleteBootcamp \<lparr>bootcamps = [''b1'' \<mapsto> \<lparr>bc_name = ''Devworks'', photo = None\<rparr>],
             courses = [\<lparr>course_title = ''Web'', course_bootcamp = ''b1''\<rparr>,
                        \<lparr>course_title = ''UX'', course_bootcamp = ''b2''\<rparr>]\<rparr> ''b1''
     = (Json 200 (EmptyDataBody True),
        \<lparr>bootcamps = Map.empty, courses = [\<lparr>course_title = ''UX'', course_bootcamp = ''b2''\<rparr>]\<rparr>)
   \<and> count_courses (snd (deleteBootcamp
          \<lparr>bootcamps = [''b1'' \<mapsto> \<lparr>bc_name = ''Devworks'', photo = None\<rparr>],
             courses = [\<lparr>course_title = ''Web'', course_bootcamp = ''b1''\<rparr>,
                        \<lparr>course_title = ''UX'', course_bootcamp = ''b2''\<rparr>]\<rparr> ''b1'')) ''b1'' = 0"
proof -
  let ?d = "\<lparr>bootcamps = [''b1'' \<mapsto> \<lparr>bc_name = ''Devworks'', photo = None\<rparr>],
             courses = [\<lparr>course_title = ''Web'', course_bootcamp = ''b1''\<rparr>,
                        \<lparr>course_title = ''UX'', course_bootcamp = ''b2''\<rparr>]\<rparr>"
  have h: "findById ?d ''b1'' = Some \<lparr>bc_name = ''Devworks'', photo = None\<rparr>"
    by (simp add: findById_def)
  have "deleteBootcamp ?d ''b1''
     = (Json 200 (EmptyDataBody True),
        \<lparr>bootcamps = Map.empty, courses = [\<lparr>course_title = ''UX'', course_bootcamp = ''b2''\<rparr>]\<rparr>)"
    by (simp add: deleteBootcamp_def findById_def deleteOne_bootcamp_def deleteMany_courses_def)
  with h deleteBootcamp_cascades [OF h] show ?thesis by simp
qed

text \<open>
  Claim C10: for every \<open>DELETE /bootcamps/:id\<close> whose id matches no stored bootcamp, the
  handler passes a NotFound error (status 404) on before it deletes anything: the
  bootcamps and the courses are as they were.
\<close>

theorem deleteBootcamp_missing_unchanged:
  assumes "findById d i = None"
  shows "deleteBootcamp d i = (Next (ErrorResponse (not_found_message i) (Some 404)), d)
       \<and> error_kind_of (fst (deleteBootcamp d i)) = Some NotFound
       \<and> bootcamps (snd (deleteBootcamp d i)) = bootcamps d
       \<and> courses (snd (deleteBootcamp d i)) = courses d"
  using assms
  by (simp add: deleteBootcamp_def error_kind_of_def kind_of_status_def ErrorResponse_def)

theorem deleteBootcamp_missing_unchanged_witness:
  "findById \<lparr>bootcamps = [''b1'' \<mapsto> \<lparr>bc_name = ''Devworks'', photo = None\<rparr>],
             courses = [\<lparr>course_title = ''Web'', course_bootcamp = ''b1''\<rparr>]\<rparr> ''b2'' = None
   \<and> deleteBootcamp \<lparr>bootcamps = [''b1'' \<mapsto> \<lparr>bc_name = ''Devworks'', photo = None\<rparr>],
             courses = [\<lparr>course_title = ''Web'', course_bootcamp = ''b1''\<rparr>]\<rparr> ''b2''
     = (Next \<lparr>message = ''Bootcamp not found with id of b2'', statusCode = Some 404\<rparr>,
        \<lparr>bootcamps = [''b1'' \<mapsto> \<lparr>bc_name = ''Devworks'', photo = None\<rparr>],
             courses = [\<lparr>course_title = ''Web'', course_bootcamp = ''b1''\<rparr>]\<rparr>)"
proof -
  let ?d = "\<lparr>bootcamps = [''b1'' \<mapsto> \<lparr>bc_name = ''Devworks'', photo = None\<rparr>],
             courses = [\<lparr>course_title = ''Web'', course_bootcamp = ''b1''\<rparr>]\<rparr>"
  have h: "findById ?d ''b2'' = None"
    by (simp add: findById_def)
  from deleteBootcamp_missing_unchanged [OF h] h show ?thesis
    by (simp add: ErrorResponse_def not_found_message_def)
qed

section \<open>Properties of the photo upload\<close>

lemma bootcampPhotoUpload_not_image:
  assumes "\<not> startsWith (mimetype file) ''image''"
  shows "bootcampPhotoUpload e st i (Some (Some file)) =
           (case findById (st_db st) i of
              None \<Rightarrow> (Next (ErrorResponse (not_found_message i) (Some 404)), st)
            | Some b \<Rightarrow> (Next (ErrorResponse ''Please upload a file'' (Some 400)), st))"
  using assms by (simp add: bootcampPhotoUpload_def split: option.splits)

text \<open>
  Claim C8 says that every photo upload whose mimetype does not start with \<open>image\<close> fails
  with a ValidationFailure. The handler looks the bootcamp up first: such an upload for
  an id that is not stored fails with NotFound (status 404).
\<close>

theorem photo_not_image_missing_bootcamp_counterexample:
  "\<not> startsWith (mimetype \<lparr>file_name = ''notes.txt'', mimetype = ''text/plain'', file_size = 10\<rparr>) ''image''
   \<and> fst (bootcampPhotoUpload
        \<lparr>MAX_FILE_UPLOAD = Some 1000000, MAX_FILE_UPLOAD_text = ''1000000'',
         FILE_UPLOAD_PATH = ''./public/uploads'', path_ext = (\<lambda>n. ''.txt''), mv_fails = (\<lambda>p. False)\<rparr>
        \<lparr>st_db = \<lparr>bootcamps = Map.empty, courses = []\<rparr>, st_files = []\<rparr>
        ''b1''
        (Some (Some \<lparr>file_name = ''notes.txt'', mimetype = ''text/plain'', file_size = 10\<rparr>)))
      = Next \<lparr>message = ''Bootcamp not found with id of b1'', statusCode = Some 404\<rparr>
   \<and> error_kind_of (fst (bootcampPhotoUpload
        \<lparr>MAX_FILE_UPLOAD = Some 1000000, MAX_FILE_UPLOAD_text = ''1000000'',
         FILE_UPLOAD_PATH = ''./public/uploads'', path_ext = (\<lambda>n. ''.txt''), mv_fails = (\<lambda>p. False)\<rparr>
        \<lparr>st_db = \<lparr>bootcamps = Map.empty, courses = []\<rparr>, st_files = []\<rparr>
        ''b1''
        (Some (Some \<lparr>file_name = ''notes.txt'', mimetype = ''text/plain'', file_size = 10\<rparr>))))
      \<noteq> Some ValidationFailure"
  by (simp add: bootcampPhotoUpload_def startsWith_def findById_def ErrorResponse_def
      not_found_message_def error_kind_of_def kind_of_status_def)

text \<open>
  Claim C8 as amended: every photo upload whose mimetype does not start with \<open>image\<close>
  fails; the file store is not called and no filename is persisted (the collections and
  the stored files are as they were); and when the bootcamp exists the failure is the
  ValidationFailure \<open>Please upload a file\<close> with status 400.
\<close>

theorem photo_not_image_rejected:
  assumes "\<not> startsWith (mimetype file) ''image''"
  shows "snd (bootcampPhotoUpload e st i (Some (Some file))) = st
       \<and> (\<exists>err. fst (bootcampPhotoUpload e st i (Some (Some file))) = Next err)
       \<and> (findById (st_db st) i \<noteq> None \<longrightarrow>
            fst (bootcampPhotoUpload e st i (Some (Some file)))
              = Next (ErrorResponse ''Please upload a file'' (Some 400))
            \<and> error_kind_of (fst (bootcampPhotoUpload e st i (Some (Some file))))
              = Some ValidationFailure)"
  unfolding bootcampPhotoUpload_not_image [OF assms]
  by (simp add: error_kind_of_def kind_of_status_def ErrorResponse_def split: option.splits)

theorem photo_not_image_rejected_witness:
  "\<not> startsWith (mimetype \<lparr>file_name = ''notes.txt'', mimetype = ''text/plain'', file_size = 10\<rparr>) ''image''
   \<and> findById (st_db \<lparr>st_db = \<lparr>bootcamps = [''b1'' \<mapsto> \<lparr>bc_name = ''Devworks'', photo = None\<rparr>],
                               courses = []\<rparr>, st_files = []\<rparr>) ''b1'' \<noteq> None
   \<and> bootcampPhotoUpload
        \<lparr>MAX_FILE_UPLOAD = Some 1000000, MAX_FILE_UPLOAD_text = ''1000000'',
         FILE_UPLOAD_PATH = ''./public/uploads'', path_ext = (\<lambda>n. ''.txt''), mv_fails = (\<lambda>p. False)\<rparr>
        \<lparr>st_db = \<lparr>bootcamps = [''b1'' \<mapsto> \<lparr>bc_name = ''Devworks'', photo = None\<rparr>],
                  courses = []\<rparr>, st_files = []\<rparr>
        ''b1''
        (Some (Some \<lparr>file_name = ''notes.txt'', mimetype = ''text/plain'', file_size = 10\<rparr>))
      = (Next \<lparr>message = ''Please upload a file'', statusCode = Some 400\<rparr>,
         \<lparr>st_db = \<lparr>bootcamps = [''b1'' \<mapsto> \<lparr>bc_name = ''Devworks'', photo = None\<rparr>],
                  courses = []\<rparr>, st_files = []\<rparr>)"
proof -
  let ?f = "\<lparr>file_name = ''notes.txt'', mimetype = ''text/plain'', file_size = 10\<rparr>"
  let ?st = "\<lparr>st_db = \<lparr>bootcamps = [''b1'' \<mapsto> \<lparr>bc_name = ''Devworks'', photo = None\<rparr>],
                  courses = []\<rparr>, st_files = []\<rparr>"
  let ?e = "\<lparr>MAX_FILE_UPLOAD = Some 1000000, MAX_FILE_UPLOAD_text = ''1000000'',
         FILE_UPLOAD_PATH = ''./public/uploads'', path_ext = (\<lambda>n. ''.txt''), mv_fails = (\<lambda>p. False)\<rparr>"
  have h: "\<not> startsWith (mimetype ?f) ''image''"
    by (simp add: startsWith_def)
  have b: "findById (st_db ?st) ''b1'' \<noteq> None"
    by (simp add: findById_def)
  from photo_not_image_rejected [OF h, of ?e ?st "''b1''"] b h show ?thesis
    by (simp add: ErrorResponse_def prod_eq_iff)
qed

text \<open>
  The size guard on every upload that reaches it: the error has no status code, and
  nothing is stored or persisted.
\<close>

lemma bootcampPhotoUpload_too_large:
  assumes "findById (st_db st) i = Some b" and "startsWith (mimetype file) ''image''"
    and "js_gt (file_size file) (MAX_FILE_UPLOAD e)"
  shows "bootcampPhotoUpload e st i (Some (Some file))
           = (Next (ErrorResponse
                (''Please upload an image less than '' @ MAX_FILE_UPLOAD_text e) None), st)"
  using assms by (simp add: bootcampPhotoUpload_def)

text \<open>
  Claim C6 says that a photo upload whose size exceeds the configured maximum fails with
  a ValidationFailure carrying status 400. The handler builds this one \<open>ErrorResponse\<close>
  without a status code, unlike the two guards before it: for an image of 2000000 bytes
  and a maximum of 1000000 the error that reaches \<open>next\<close> has no status (and so no error
  kind), while nothing is stored or persisted.
\<close>

theorem photo_too_large_no_status:
  "startsWith (mimetype \<lparr>file_name = ''big.png'', mimetype = ''image/png'', file_size = 2000000\<rparr>) ''image''
   \<and> js_gt (file_size \<lparr>file_name = ''big.png'', mimetype = ''image/png'', file_size = 2000000\<rparr>)
        (Some 1000000)
   \<and> bootcampPhotoUpload
        \<lparr>MAX_FILE_UPLOAD = Some 1000000, MAX_FILE_UPLOAD_text = ''1000000'',
         FILE_UPLOAD_PATH = ''./public/uploads'', path_ext = (\<lambda>n. ''.png''), mv_fails = (\<lambda>p. False)\<rparr>
        \<lparr>st_db = \<lparr>bootcamps = [''b1'' \<mapsto> \<lparr>bc_name = ''Devworks'', photo = None\<rparr>],
                  courses = []\<rparr>, st_files = []\<rparr>
        ''b1''
        (Some (Some \<lparr>file_name = ''big.png'', mimetype = ''image/png'', file_size = 2000000\<rparr>))
      = (Next \<lparr>message = ''Please upload an image less than 1000000'', statusCode = None\<rparr>,
         \<lparr>st_db = \<lparr>bootcamps = [''b1'' \<mapsto> \<lparr>bc_name = ''Devworks'', photo = None\<rparr>],
                  courses = []\<rparr>, st_files = []\<rparr>)
   \<and> error_kind_of (Next \<lparr>message = ''Please upload an image less than 1000000'',
                           statusCode = None\<rparr> :: bootcamp outcome) = None"
  by (simp add: bootcampPhotoUpload_def startsWith_def findById_def ErrorResponse_def js_gt_def
      error_kind_of_def kind_of_status_def)

section \<open>Properties of the login\<close>

text \<open>
  Claim C7 says that every login with a registered email and a wrong password is answered
  with Unauthorized (status 401). The handler first rejects a request whose email or
  password is empty: the empty password, which matches no user, is answered with status
  400 and the message \<open>Please provide an email and password\<close>.
\<close>

theorem login_empty_password_counterexample:
  "findOne_user \<lparr>users = [\<lparr>user_email = ''ann@example.com'', user_password = ''hash''\<rparr>],
                 matchPassword = (\<lambda>u p. p = ''secret''),
                 getSignedJwtToken = (\<lambda>u. ''token'')\<rparr> ''ann@example.com''
      = Some \<lparr>user_email = ''ann@example.com'', user_password = ''hash''\<rparr>
   \<and> \<not> matchPassword \<lparr>users = [\<lparr>user_email = ''ann@example.com'', user_password = ''hash''\<rparr>],
                 matchPassword = (\<lambda>u p. p = ''secret''),
                 getSignedJwtToken = (\<lambda>u. ''token'')\<rparr>
          \<lparr>user_email = ''ann@example.com'', user_password = ''hash''\<rparr> ''''
   \<and> login \<lparr>users = [\<lparr>user_email = ''ann@example.com'', user_password = ''hash''\<rparr>],
                 matchPassword = (\<lambda>u p. p = ''secret''),
                 getSignedJwtToken = (\<lambda>u. ''token'')\<rparr> (Some ''ann@example.com'') (Some '''')
      = Next \<lparr>message = ''Please provide an email and password'', statusCode = Some 400\<rparr>
   \<and> error_kind_of (login \<lparr>users = [\<lparr>user_email = ''ann@example.com'', user_password = ''hash''\<rparr>],
                 matchPassword = (\<lambda>u p. p = ''secret''),
                 getSignedJwtToken = (\<lambda>u. ''token'')\<rparr> (Some ''ann@example.com'') (Some ''''))
      \<noteq> Some Unauthorized"
  by (simp add: login_def falsy_def field_text_def findOne_user_def ErrorResponse_def
      error_kind_of_def kind_of_status_def)

text \<open>
  Claim C7 as amended: every login with a registered email and a wrong password that is
  not empty is answered with Unauthorized (status 401) and the message
  \<open>Invalid credentials\<close>, and a login with an email that is not registered (email and
  password not empty) gets the very same response, so the two cannot be told apart.
\<close>

theorem login_wrong_password_indistinguishable:
  assumes "findOne_user a e1 = Some u" and "\<not> matchPassword a u p1"
    and "findOne_user a e2 = None"
    and "e1 \<noteq> []" and "p1 \<noteq> []" and "e2 \<noteq> []" and "p2 \<noteq> []"
  shows "login a (Some e1) (Some p1) = Next (ErrorResponse ''Invalid credentials'' (Some 401))
       \<and> login a (Some e2) (Some p2) = login a (Some e1) (Some p1)
       \<and> error_kind_of (login a (Some e1) (Some p1)) = Some Unauthorized"
  using assms
  by (simp add: login_def falsy_def field_text_def error_kind_of_def kind_of_status_def
      ErrorResponse_def)

theorem login_wrong_password_indistinguishable_witness:
  "findOne_user \<lparr>users = [\<lparr>user_email = ''ann@example.com'', user_password = ''hash''\<rparr>],
                 matchPassword = (\<lambda>u p. p = ''secret''),
                 getSignedJwtToken = (\<lambda>u. ''token'')\<rparr> ''ann@example.com''
      = Some \<lparr>user_email = ''ann@example.com'', user_password = ''hash''\<rparr>
   \<and> findOne_user \<lparr>users = [\<lparr>user_email = ''ann@example.com'', user_password = ''hash''\<rparr>],
                 matchPassword = (\<lambda>u p. p = ''secret''),
                 getSignedJwtToken = (\<lambda>u. ''token'')\<rparr> ''bob@example.com'' = None
   \<and> login \<lparr>users = [\<lparr>user_email = ''ann@example.com'', user_password = ''hash''\<rparr>],
                 matchPassword = (\<lambda>u p. p = ''secret''),
                 getSignedJwtToken = (\<lambda>u. ''token'')\<rparr> (Some ''ann@example.com'') (Some ''guess'')
      = Next \<lparr>message = ''Invalid credentials'', statusCode = Some 401\<rparr>
   \<and> login \<lparr>users = [\<lparr>user_email = ''ann@example.com'', user_password = ''hash''\<rparr>],
                 matchPassword = (\<lambda>u p. p = ''secret''),
                 getSignedJwtToken = (\<lambda>u. ''token'')\<rparr> (Some ''bob@example.com'') (Some ''secret'')
      = Next \<lparr>message = ''Invalid credentials'', statusCode = Some 401\<rparr>"
proof -
  let ?u = "\<lparr>user_email = ''ann@example.com'', user_password = ''hash''\<rparr>"
  let ?a = "\<lparr>users = [?u], matchPassword = (\<lambda>u p. p = ''secret''),
             getSignedJwtToken = (\<lambda>u. ''token'')\<rparr>"
  have h1: "findOne_user ?a ''ann@example.com'' = Some ?u"
    by (simp add: findOne_user_def)
  have h2: "\<not> matchPassword ?a ?u ''guess''"
    by simp
  have h3: "findOne_user ?a ''bob@example.com'' = None"
    by (simp add: findOne_user_def)
  from login_wrong_password_indistinguishable [OF h1 h2 h3, of "''secret''"] h1 h3
  show ?thesis
    by (simp add: ErrorResponse_def)
qed

section \<open>Properties of the filter translation\<close>

subsection \<open>The replacement as a scan\<close>

lemma match_here_prefix: "match_here t s \<Longrightarrow> s = t @ drop (length t) s"
  by (induction t s rule: match_here.induct) auto

lemma replace_ops_word_run:
  "list_all is_word w \<Longrightarrow> replace_ops True (w @ rest) = w @ replace_ops True rest"
  by (induction w) auto

lemma first_alternative_None: "first_alternative s = None \<longleftrightarrow> \<not> op_match s"
  by (auto simp: first_alternative_def op_match_def find_None_iff list_ex_iff)

lemma first_alternative_Some:
  assumes "first_alternative s = Some t"
  shows "t \<in> set operators" and "match_here t s" and "op_match s"
  using assms by (auto simp: first_alternative_def op_match_def find_Some_iff list_ex_iff)

lemma regex_replace_scan: "regex_replace prev s = replace_ops prev s"
proof (induction prev s rule: regex_replace.induct)
  case (1 prev)
  then show ?case by simp
next
  case (2 prev c cs)
  show ?case
  proof (cases prev)
    case True
    with 2 show ?thesis by simp
  next
    case False
    show ?thesis
    proof (cases "first_alternative (c # cs)")
      case None
      then have "\<not> op_match (c # cs)" by (simp add: first_alternative_None)
      with None False 2 show ?thesis by simp
    next
      case (Some t)
      note t = first_alternative_Some [OF Some]
      define r where "r = drop (length t) (c # cs)"
      from t(2) have split: "c # cs = t @ r"
        unfolding r_def by (rule match_here_prefix)
      from t(1) have w: "list_all is_word t" "t \<noteq> []"
        by (auto simp: operators_def is_word_def)
      from w(2) split obtain u where u: "t = c # u" by (cases t) auto
      with w have cw: "is_word c" "list_all is_word u" by auto
      from split u have cs: "cs = u @ r" by simp
      have "replace_ops False (c # cs) = CHR ''$'' # c # replace_ops True cs"
        using t(3) cw by simp
      also have "replace_ops True cs = u @ replace_ops True r"
        unfolding cs using cw(2) by (rule replace_ops_word_run)
      finally have "replace_ops False (c # cs) = CHR ''$'' # t @ replace_ops True r"
        using u by simp
      moreover have "regex_replace True r = replace_ops True r"
        unfolding r_def using False Some by (rule 2(3))
      ultimately show ?thesis using False Some by (simp add: r_def)
    qed
  qed
qed

subsection \<open>The rewrite on the text of a string\<close>

lemma op_match_first:
  "op_match (c # cs) \<Longrightarrow> c = CHR ''g'' \<or> c = CHR ''l'' \<or> c = CHR ''i''"
  by (auto simp: op_match_def operators_def)

lemma not_word_no_match: "\<not> is_word c \<Longrightarrow> \<not> op_match (c # cs)"
  by (auto dest!: op_match_first simp: is_word_def)

lemma replace_ops_nonword: "\<not> is_word c \<Longrightarrow> replace_ops p (c # cs) = c # replace_ops False cs"
  by (simp add: not_word_no_match)

lemma not_word_dquote [simp]: "\<not> is_word dquote"
  by (simp add: is_word_def dquote_def)

lemma not_word_backslash [simp]: "\<not> is_word backslash"
  by (simp add: is_word_def backslash_def)

lemma not_word_control: "(of_char c :: nat) < 32 \<Longrightarrow> \<not> is_word c"
  by (simp add: is_word_def)

lemma is_word_hex_digit: "k < 16 \<Longrightarrow> is_word (hex_digit k)"
  by (simp add: is_word_def hex_digit_def)

lemma hex_val_hex_digit: "k < 16 \<Longrightarrow> hex_val (hex_digit k) = Some k"
  by (simp add: hex_val_def hex_digit_def)

text \<open>The five shapes of the text of one character.\<close>

lemma esc_char_cases:
  obtains (plain) "esc_char c = [c]" "c \<noteq> dquote" "c \<noteq> backslash" "32 \<le> (of_char c :: nat)"
  | (quote) "c = dquote" "esc_char c = [backslash, dquote]"
  | (backslash) "c = backslash" "esc_char c = [backslash, backslash]"
  | (short) x where "(of_char c :: nat) < 32" "esc_char c = [backslash, x]"
      "x \<in> {CHR ''b'', CHR ''f'', CHR ''n'', CHR ''r'', CHR ''t''}"
  | (unicode) "(of_char c :: nat) < 32"
      "esc_char c = [backslash, CHR ''u'', CHR ''0'', CHR ''0'',
                     hex_digit (of_char c div 16), hex_digit (of_char c mod 16)]"
      "(of_char c :: nat) \<notin> {8, 9, 10, 12, 13}"
proof -
  consider "c = dquote" | "c = backslash" | "c \<noteq> dquote" "c \<noteq> backslash" "(of_char c :: nat) < 32"
    | "c \<noteq> dquote" "c \<noteq> backslash" "32 \<le> (of_char c :: nat)"
    by fastforce
  then show thesis
  proof cases
    case 1
    then show thesis using quote by (simp add: esc_char_def)
  next
    case 2
    then show thesis using backslash by (simp add: esc_char_def dquote_def backslash_def)
  next
    case 3
    show thesis
    proof (cases "(of_char c :: nat) \<in> {8, 9, 10, 12, 13}")
      case True
      with 3 show thesis
        by (intro short [of "esc_char c ! 1"]) (auto simp: esc_char_def Let_def)
    next
      case False
      with 3 show thesis
        by (intro unicode) (auto simp: esc_char_def Let_def)
    qed
  next
    case 4
    then show thesis using plain by (auto simp: esc_char_def Let_def)
  qed
qed


lemma esc_string_Cons: "esc_string (c # cs) = esc_char c @ esc_string cs"
  by (simp add: esc_string_def)

lemma esc_string_Nil: "esc_string [] = []"
  by (simp add: esc_string_def)

lemma esc_char_word: "is_word c \<Longrightarrow> esc_char c = [c]"
  by (cases c rule: esc_char_cases) (auto dest: not_word_control)

lemma esc_char_not_word:
  "\<not> is_word c \<Longrightarrow> \<exists>h t. esc_char c = h # t \<and> \<not> is_word h"
  by (cases c rule: esc_char_cases) auto

lemma boundary_after_esc:
  "boundary_after (esc_string s @ dquote # rest) = boundary_after s"
proof (cases s)
  case Nil
  then show ?thesis by (simp add: esc_string_Nil)
next
  case (Cons c cs)
  show ?thesis
  proof (cases "is_word c")
    case True
    with Cons show ?thesis by (simp add: esc_string_Cons esc_char_word)
  next
    case False
    with esc_char_not_word obtain h t where "esc_char c = h # t" "\<not> is_word h" by blast
    with Cons False show ?thesis by (simp add: esc_string_Cons)
  qed
qed

lemma match_here_esc:
  "list_all is_word t \<Longrightarrow>
     match_here t (esc_string s @ dquote # rest) = match_here t s"
proof (induction t arbitrary: s)
  case Nil
  then show ?case by (simp add: boundary_after_esc)
next
  case (Cons x xs)
  show ?case
  proof (cases s)
    case Nil
    with Cons.prems show ?thesis by (auto simp: esc_string_Nil)
  next
    case c: (Cons c cs)
    show ?thesis
    proof (cases "is_word c")
      case True
      with c Cons show ?thesis by (simp add: esc_string_Cons esc_char_word)
    next
      case False
      with esc_char_not_word obtain h t where "esc_char c = h # t" "\<not> is_word h" by blast
      with c False Cons.prems show ?thesis by (auto simp: esc_string_Cons)
    qed
  qed
qed

lemma operators_words: "t \<in> set operators \<Longrightarrow> list_all is_word t"
  by (auto simp: operators_def is_word_def)

lemma op_match_esc: "op_match (esc_string s @ dquote # rest) = op_match s"
  by (simp add: op_match_def list_ex_iff match_here_esc operators_words)

lemma replace_ops_esc_string:
  "replace_ops p (esc_string s @ dquote # rest)
     = esc_string (rewrite_string p s) @ dquote # replace_ops False rest"
proof (induction s arbitrary: p)
  case Nil
  then show ?case by (simp add: esc_string_Nil not_word_no_match)
next
  case (Cons c cs)
  have m: "op_match (c # esc_string cs @ dquote # rest) = op_match (c # cs)" if "esc_char c = [c]"
    using op_match_esc [of "c # cs" rest] that by (simp add: esc_string_Cons)
  have dollar: "esc_char CHR ''$'' = ''$''"
    by (simp add: esc_char_def dquote_def backslash_def)
  show ?case
  proof (cases c rule: esc_char_cases)
    case plain
    then have "ends_in_word c = is_word c" by (simp add: ends_in_word_def)
    with plain show ?thesis
      by (simp add: esc_string_Cons m Cons.IH dollar)
  next
    case quote
    have "\<not> ends_in_word dquote" by (simp add: ends_in_word_def is_word_def dquote_def)
    with quote show ?thesis
      by (simp add: esc_string_Cons replace_ops_nonword not_word_no_match Cons.IH)
  next
    case backslash
    have "\<not> ends_in_word backslash" by (simp add: ends_in_word_def is_word_def backslash_def)
    with backslash show ?thesis
      by (simp add: esc_string_Cons replace_ops_nonword not_word_no_match Cons.IH)
  next
    case (short x)
    from short(3) have x: "\<not> op_match (x # r)" "is_word x" for r
      by (auto dest: op_match_first simp: is_word_def)
    from short(1) have "\<not> is_word c" by (rule not_word_control)
    with short x show ?thesis
      by (simp add: esc_string_Cons replace_ops_nonword not_word_no_match Cons.IH ends_in_word_def)
  next
    case unicode
    from unicode(1) have c: "\<not> is_word c" by (rule not_word_control)
    have u: "\<not> op_match (CHR ''u'' # r)" "is_word CHR ''u''" "is_word CHR ''0''" for r
      by (auto dest: op_match_first simp: is_word_def)
    have h: "is_word (hex_digit (of_char c div 16))" "is_word (hex_digit (of_char c mod 16))"
      using unicode(1) by (simp_all add: is_word_hex_digit)
    from unicode c u h show ?thesis
      by (simp add: esc_string_Cons replace_ops_nonword not_word_no_match Cons.IH ends_in_word_def)
  qed
qed

lemma char_of_code: "(of_char c :: nat) = n \<Longrightarrow> c = char_of n"
  by (metis char_of_char)

lemma unesc_simple_short:
  assumes "(of_char c :: nat) < 32" and "esc_char c = [backslash, x]"
  shows "unesc_simple x = Some c \<and> x \<noteq> CHR ''u''"
proof -
  from assms consider "(of_char c :: nat) = 8" "x = CHR ''b''" | "(of_char c :: nat) = 12" "x = CHR ''f''"
    | "(of_char c :: nat) = 10" "x = CHR ''n''" | "(of_char c :: nat) = 13" "x = CHR ''r''"
    | "(of_char c :: nat) = 9" "x = CHR ''t''"
    by (auto simp: esc_char_def Let_def dquote_def backslash_def split: if_splits)
  then show ?thesis
    by cases (auto dest!: char_of_code simp: unesc_simple_def dquote_def backslash_def)
qed

lemma unesc_simple_dquote: "unesc_simple dquote = Some dquote"
  by (simp add: unesc_simple_def)

lemma unesc_simple_backslash: "unesc_simple backslash = Some backslash"
  by (simp add: unesc_simple_def dquote_def backslash_def)

lemma special_chars_distinct:
  "dquote \<noteq> backslash" "backslash \<noteq> dquote" "dquote \<noteq> CHR ''u''" "backslash \<noteq> CHR ''u''"
  by (simp_all add: dquote_def backslash_def)

lemma unicode_escape_control:
  "(of_char c :: nat) < 32 \<Longrightarrow>
     unicode_escape CHR ''0'' CHR ''0'' (hex_digit (of_char c div 16)) (hex_digit (of_char c mod 16))
       = Some c"
  by (simp add: unicode_escape_def hex_val_hex_digit) (simp add: hex_val_def)

lemma parse_chars_esc_string:
  "parse_chars (esc_string s @ dquote # rest) = Some (s, rest)"
proof (induction s)
  case Nil
  then show ?case by (simp add: esc_string_Nil)
next
  case (Cons c cs)
  show ?case
  proof (cases c rule: esc_char_cases)
    case plain
    then show ?thesis
      by (simp add: esc_string_Cons Cons.IH cons_result_def)
  next
    case quote
    then show ?thesis
      by (simp add: esc_string_Cons Cons.IH cons_result_def unesc_simple_dquote
          special_chars_distinct)
  next
    case backslash
    then show ?thesis
      by (simp add: esc_string_Cons Cons.IH cons_result_def unesc_simple_backslash
          special_chars_distinct)
  next
    case (short x)
    from unesc_simple_short [OF short(1,2)] short show ?thesis
      by (simp add: esc_string_Cons Cons.IH cons_result_def special_chars_distinct)
  next
    case unicode
    from unicode_escape_control [OF unicode(1)] unicode show ?thesis
      by (simp add: esc_string_Cons Cons.IH cons_result_def special_chars_distinct)
  qed
qed


lemma punctuation_not_word:
  "\<not> is_word CHR ''[''" "\<not> is_word CHR '']''" "\<not> is_word CHR ''{''" "\<not> is_word CHR ''}''"
  "\<not> is_word CHR '',''" "\<not> is_word CHR '':''"
  by (simp_all add: is_word_def)

lemma replace_ops_quote:
  "replace_ops p (quote s @ rest) = quote (rewrite_string False s) @ replace_ops False rest"
  by (simp add: quote_def not_word_no_match replace_ops_esc_string)

lemma replace_ops_join_comma:
  assumes "\<And>x p rest. x \<in> set xs \<Longrightarrow> replace_ops p (f x @ rest) = g x @ replace_ops False rest"
    and "\<not> is_word c"
  shows "replace_ops False (join_comma (map f xs) @ c # rest)
           = join_comma (map g xs) @ c # replace_ops False rest"
  using assms(1)
proof (induction xs rule: induct_list012)
  case 1
  then show ?case by (simp add: not_word_no_match assms(2))
next
  case (2 x)
  then show ?case by (simp add: not_word_no_match assms(2))
next
  case (3 x y zs)
  have "replace_ops False (join_comma (map f (y # zs)) @ c # rest)
          = join_comma (map g (y # zs)) @ c # replace_ops False rest"
    by (rule 3(2)) (simp add: 3(3))
  then show ?case
    by (simp add: 3(3) not_word_no_match punctuation_not_word)
qed

lemma replace_ops_stringify:
  "replace_ops p (stringify v @ rest) = stringify (rewrite v) @ replace_ops False rest"
proof (induction v arbitrary: p rest)
  case (QStr s)
  then show ?case by (simp add: replace_ops_quote)
next
  case (QArr vs)
  have "replace_ops False (join_comma (map stringify vs) @ CHR '']'' # rest)
          = join_comma (map (\<lambda>v. stringify (rewrite v)) vs) @ CHR '']'' # replace_ops False rest"
    by (rule replace_ops_join_comma) (simp_all add: QArr punctuation_not_word)
  then show ?case
    by (simp add: not_word_no_match punctuation_not_word comp_def)
next
  case (QObj ms)
  let ?f = "\<lambda>(k, v). quote k @ CHR '':'' # stringify v"
  let ?g = "\<lambda>(k, v). quote (rewrite_string False k) @ CHR '':'' # stringify (rewrite v)"
  have member: "replace_ops p (?f x @ rest) = ?g x @ replace_ops False rest"
    if "x \<in> set ms" for x p rest
  proof -
    obtain k v where x: "x = (k, v)" by (cases x)
    with that have "replace_ops p (stringify v @ rest) = stringify (rewrite v) @ replace_ops False rest"
      for p rest
      by (intro QObj) auto
    with x show ?thesis
      by (simp add: replace_ops_quote not_word_no_match punctuation_not_word)
  qed
  have main: "replace_ops False (join_comma (map ?f ms) @ CHR ''}'' # rest)
          = join_comma (map ?g ms) @ CHR ''}'' # replace_ops False rest"
    by (rule replace_ops_join_comma) (simp_all add: member punctuation_not_word)
  have lhs: "replace_ops p (stringify (QObj ms) @ rest)
          = CHR ''{'' # replace_ops False (join_comma (map ?f ms) @ CHR ''}'' # rest)"
    by (simp add: not_word_no_match punctuation_not_word)
  have rhs: "stringify (rewrite (QObj ms)) = CHR ''{'' # join_comma (map ?g ms) @ ''}''"
    by (simp add: case_prod_unfold comp_def)
  show ?case
    unfolding lhs main rhs by simp
qed

subsection \<open>Parsing the text of a value\<close>

lemma stringify_first:
  "\<exists>c cs. stringify v = c # cs \<and> (c = dquote \<or> c = CHR ''['' \<or> c = CHR ''{'')"
  by (cases v) (simp_all add: quote_def)

lemma join_comma_first:
  "xs \<noteq> [] \<Longrightarrow> hd xs = c # cs \<Longrightarrow> \<exists>r. join_comma xs = c # r"
  by (induction xs rule: induct_list012) auto

lemma parse_elements_join_comma:
  assumes "\<And>v n rest. v \<in> set vs \<Longrightarrow> fuel_of v \<le> n \<Longrightarrow>
             parse_value n (stringify v @ rest) = Some (normalise v, rest)"
    and "vs \<noteq> []"
    and "sum_list (map (\<lambda>v. Suc (fuel_of v)) vs) \<le> n"
  shows "parse_elements n (join_comma (map stringify vs) @ CHR '']'' # rest)
           = Some (map normalise vs, rest)"
  using assms
proof (induction vs arbitrary: n rule: induct_list012)
  case 1
  then show ?case by simp
next
  case (2 v)
  from 2(3) obtain m where n: "n = Suc m" and m: "fuel_of v \<le> m"
    by (cases n) auto
  from 2(1) [of v m "CHR '']'' # rest"] m n show ?case
    by simp
next
  case (3 v w ws)
  from 3(5) obtain m where n: "n = Suc m" and m: "fuel_of v \<le> m"
    and rest: "sum_list (map (\<lambda>v. Suc (fuel_of v)) (w # ws)) \<le> m"
    by (cases n) auto
  have "parse_elements m (join_comma (map stringify (w # ws)) @ CHR '']'' # rest)
          = Some (map normalise (w # ws), rest)"
    using rest by (intro 3(2)) (simp_all add: 3(3))
  moreover have "parse_value m (stringify v @ CHR '','' # join_comma (map stringify (w # ws)) @ CHR '']'' # rest)
          = Some (normalise v, CHR '','' # join_comma (map stringify (w # ws)) @ CHR '']'' # rest)"
    using m by (intro 3(3)) simp
  ultimately show ?case
    using n by (simp add: cons_result_def)
qed

lemma parse_members_join_comma:
  assumes "\<And>k v n rest. (k, v) \<in> set ms \<Longrightarrow> fuel_of v \<le> n \<Longrightarrow>
             parse_value n (stringify v @ rest) = Some (normalise v, rest)"
    and "ms \<noteq> []"
    and "sum_list (map (\<lambda>(k, v). Suc (fuel_of v)) ms) \<le> n"
  shows "parse_members n
           (join_comma (map (\<lambda>(k, v). quote k @ CHR '':'' # stringify v) ms) @ CHR ''}'' # rest)
           = Some (map (\<lambda>(k, v). (k, normalise v)) ms, rest)"
  using assms
proof (induction ms arbitrary: n rule: induct_list012)
  case 1
  then show ?case by simp
next
  case (2 x)
  obtain k v where x: "x = (k, v)" by (cases x)
  from 2(3) x obtain m where n: "n = Suc m" and m: "fuel_of v \<le> m"
    by (cases n) auto
  from 2(1) [of k v m "CHR ''}'' # rest"] m n x show ?case
    by (simp add: quote_def parse_chars_esc_string)
next
  case (3 x y zs)
  obtain k v where x: "x = (k, v)" by (cases x)
  from 3(5) x obtain m where n: "n = Suc m" and m: "fuel_of v \<le> m"
    and rest: "sum_list (map (\<lambda>(k, v). Suc (fuel_of v)) (y # zs)) \<le> m"
    by (cases n) auto
  let ?tail = "join_comma (map (\<lambda>(k, v). quote k @ CHR '':'' # stringify v) (y # zs)) @ CHR ''}'' # rest"
  have "parse_members m ?tail = Some (map (\<lambda>(k, v). (k, normalise v)) (y # zs), rest)"
  proof (intro 3(2))
    fix k v n rest
    assume "(k, v) \<in> set (y # zs)" and "fuel_of v \<le> n"
    then show "parse_value n (stringify v @ rest) = Some (normalise v, rest)"
      by (intro 3(3) [of k v]) simp_all
  qed (use rest in simp_all)
  moreover have "parse_value m (stringify v @ CHR '','' # ?tail)
          = Some (normalise v, CHR '','' # ?tail)"
    using m x by (intro 3(3) [of k v]) simp_all
  ultimately show ?case
    using n x by (simp add: cons_result_def quote_def parse_chars_esc_string)
qed

lemma parse_value_stringify:
  "fuel_of v \<le> n \<Longrightarrow> parse_value n (stringify v @ rest) = Some (normalise v, rest)"
proof (induction v arbitrary: n rest)
  case (QStr s)
  then obtain m where "n = Suc m" by (cases n) auto
  then show ?case
    by (simp add: quote_def parse_chars_esc_string)
next
  case (QArr vs)
  from QArr(2) obtain m where n: "n = Suc m"
    and m: "sum_list (map (\<lambda>v. Suc (fuel_of v)) vs) \<le> m"
    by (cases n) auto
  show ?case
  proof (cases vs)
    case Nil
    with n show ?thesis by (simp add: dquote_def)
  next
    case (Cons w ws)
    from stringify_first [of w] obtain c cs where c: "stringify w = c # cs" "c \<noteq> CHR '']''"
      by (auto simp: dquote_def)
    with Cons obtain r where r: "join_comma (map stringify vs) = c # r"
      using join_comma_first [of "map stringify vs" c cs] by auto
    have "parse_elements m (join_comma (map stringify vs) @ CHR '']'' # rest)
            = Some (map normalise vs, rest)"
      using m Cons by (intro parse_elements_join_comma QArr(1)) simp_all
    with r c n show ?thesis
      by (auto simp: dquote_def)
  qed
next
  case (QObj ms)
  from QObj(2) obtain m where n: "n = Suc m"
    and m: "sum_list (map (\<lambda>(k, v). Suc (fuel_of v)) ms) \<le> m"
    by (cases n) auto
  let ?f = "\<lambda>(k, v). quote k @ CHR '':'' # stringify v"
  show ?case
  proof (cases ms)
    case Nil
    with n show ?thesis by (simp add: object_of_members_def dquote_def)
  next
    case (Cons x xs)
    obtain k v where x: "x = (k, v)" by (cases x)
    with Cons obtain r where r: "join_comma (map ?f ms) = dquote # r"
      using join_comma_first [of "map ?f ms" dquote "esc_string k @ dquote # CHR '':'' # stringify v"]
      by (auto simp: quote_def)
    have "parse_members m (join_comma (map ?f ms) @ CHR ''}'' # rest)
            = Some (map (\<lambda>(k, v). (k, normalise v)) ms, rest)"
      using m Cons
    proof (intro parse_members_join_comma)
      fix k v n rest
      assume "(k, v) \<in> set ms" "fuel_of v \<le> n"
      then show "parse_value n (stringify v @ rest) = Some (normalise v, rest)"
        by (intro QObj(1) [of "(k, v)"]) (auto intro: Basic_BNFs.snds.intros)
    qed simp_all
    with r n show ?thesis
      by (auto simp: dquote_def)
  qed
qed

lemma length_join_comma:
  "sum_list (map (\<lambda>x. Suc (length x)) xs) \<le> Suc (length (join_comma xs))"
  by (induction xs rule: induct_list012) auto

lemma fuel_le_length: "fuel_of v \<le> length (stringify v)"
proof (induction v)
  case (QStr s)
  then show ?case by (simp add: quote_def)
next
  case (QArr vs)
  have "sum_list (map (\<lambda>v. Suc (fuel_of v)) vs) \<le> sum_list (map (\<lambda>x. Suc (length x)) (map stringify vs))"
    unfolding map_map comp_def by (intro sum_list_mono) (simp add: QArr)
  also have "\<dots> \<le> Suc (length (join_comma (map stringify vs)))"
    by (rule length_join_comma)
  finally show ?case by simp
next
  case (QObj ms)
  let ?f = "\<lambda>(k, v). quote k @ CHR '':'' # stringify v"
  have "sum_list (map (\<lambda>(k, v). Suc (fuel_of v)) ms) \<le> sum_list (map (\<lambda>x. Suc (length x)) (map ?f ms))"
    unfolding map_map comp_def
  proof (intro sum_list_mono)
    fix x assume "x \<in> set ms"
    then have "fuel_of (snd x) \<le> length (stringify (snd x))"
      by (intro QObj [of x]) (auto intro: Basic_BNFs.snds.intros)
    then show "(case x of (k, v) \<Rightarrow> Suc (fuel_of v)) \<le> Suc (length (?f x))"
      by (cases x) auto
  qed
  also have "\<dots> \<le> Suc (length (join_comma (map ?f ms)))"
    by (rule length_join_comma)
  finally show ?case by simp
qed

lemma JSON_parse_stringify: "JSON_parse (stringify v) = Inr (normalise v)"
  using parse_value_stringify [OF fuel_le_length, of v "[]"]
  by (simp add: JSON_parse_def)

lemma translate_eq: "translate q = Inr (normalise (rewrite (QObj (delete_fields q))))"
  using replace_ops_stringify [of False "QObj (delete_fields q)" "[]"]
  by (simp add: translate_def regex_replace_scan JSON_parse_stringify
      del: stringify.simps rewrite.simps normalise.simps)

subsection \<open>The translation and its description\<close>

lemma rewrite_string_operator:
  "t \<in> set operators \<Longrightarrow> rewrite_string False t = CHR ''$'' # t"
  by (auto simp: operators_def op_match_def ends_in_word_def is_word_def)

lemma rewrite_string_no_op:
  "\<not> has_op p s \<Longrightarrow> (p \<longrightarrow> p') \<Longrightarrow> rewrite_string p' s = s"
proof (induction s arbitrary: p p')
  case Nil
  then show ?case by simp
next
  case (Cons c cs)
  from Cons.prems have "rewrite_string (ends_in_word c) cs = cs"
    by (intro Cons.IH [of "is_word c"]) (auto simp: ends_in_word_def)
  with Cons.prems show ?case by auto
qed

lemma rewrite_clean_value: "clean_value v \<Longrightarrow> rewrite v = spec_value v"
proof (induction v)
  case (QStr s)
  then show ?case by (simp add: rewrite_string_no_op [of False])
next
  case (QArr vs)
  then show ?case by (simp add: list_all_iff)
next
  case (QObj ms)
  have "(case x of (k, v) \<Rightarrow> (rewrite_string False k, rewrite v))
      = (case x of (k, v) \<Rightarrow> (if k \<in> set operators then CHR ''$'' # k else k, spec_value v))"
    if "x \<in> set ms" for x
  proof -
    obtain k v where x: "x = (k, v)" by (cases x)
    with that QObj.prems have k: "k \<in> set operators \<or> \<not> has_op False k" and v: "clean_value v"
      by (auto simp: list_all_iff)
    from v that x have "rewrite v = spec_value v"
      by (intro QObj.IH [of x]) (auto intro: Basic_BNFs.snds.intros)
    moreover from k have "rewrite_string False k = (if k \<in> set operators then CHR ''$'' # k else k)"
      by (auto simp: rewrite_string_operator rewrite_string_no_op [of False])
    ultimately show ?thesis using x by simp
  qed
  then show ?case by simp
qed

lemma rewrite_clean_query:
  assumes "clean_query q"
  shows "rewrite (QObj (delete_fields q)) = spec_translate q"
proof -
  have "(case x of (k, v) \<Rightarrow> (rewrite_string False k, rewrite v))
      = (case x of (k, v) \<Rightarrow> (k, spec_value v))"
    if "x \<in> set (delete_fields q)" for x
    using that assms
    by (cases x) (auto simp: clean_query_def list_all_iff rewrite_clean_value
        rewrite_string_no_op [of False])
  then show ?thesis by (simp add: spec_translate_def)
qed

text \<open>
  Claim C3 says that the Filter Translator rewrites a nested key exactly when it is one of
  \<open>gt\<close>, \<open>gte\<close>, \<open>lt\<close>, \<open>lte\<close>, \<open>in\<close>, and that every other token, operator-like strings
  in field names and literal values included, passes through unmodified. The handler
  rewrites the serialised text of the whole query: the literal value \<open>in\<close> of
  \<open>?name=in\<close> becomes \<open>$in\<close>, and the field name \<open>lt\<close> of \<open>?lt=5\<close> becomes \<open>$lt\<close>,
  where the specification's translator changes neither.
\<close>

theorem translate_literal_value_counterexample:
  "translate [(''name'', QStr ''in'')] = Inr (QObj [(''name'', QStr ''$in'')])
   \<and> spec_translate [(''name'', QStr ''in'')] = QObj [(''name'', QStr ''in'')]
   \<and> translate [(''lt'', QStr ''5'')] = Inr (QObj [(''$lt'', QStr ''5'')])
   \<and> spec_translate [(''lt'', QStr ''5'')] = QObj [(''lt'', QStr ''5'')]"
  by code_simp

text \<open>
  Claim C3 as amended: for every RawQuery the Filter Translator does not throw, and its
  result is the query without the control keys in which \<open>$\<close> stands before every whole
  word \<open>gt\<close>, \<open>gte\<close>, \<open>lt\<close>, \<open>lte\<close>, \<open>in\<close> in the serialised text of every key and every string,
  at every depth (\<open>rewrite\<close>; \<open>normalise\<close> is what parsing does to a key that is listed
  twice; in the serialised text no word begins directly behind a control character, whose
  escape ends in a letter or a digit). So a nested
  key that is one of the five becomes the comparison operator under its unchanged outer
  key, and a key or literal value that has none of the five as a whole word passes
  through unmodified: on every query whose field names and literal values have none,
  and whose nested keys are operators or have none, the result is the one the
  specification words (\<open>spec_translate\<close>).
\<close>

theorem translate_rewrites_whole_words:
  "translate q = Inr (normalise (rewrite (QObj (delete_fields q))))
   \<and> (clean_query q \<longrightarrow> translate q = Inr (normalise (spec_translate q)))
   \<and> (\<forall>t \<in> set operators. rewrite_string False t = CHR ''$'' # t)
   \<and> (\<forall>s. \<not> has_op False s \<longrightarrow> rewrite_string False s = s)"
proof -
  have "translate q = Inr (normalise (rewrite (QObj (delete_fields q))))"
    by (rule translate_eq)
  moreover from this have "translate q = Inr (normalise (spec_translate q))" if "clean_query q"
    using that by (simp only: rewrite_clean_query)
  ultimately show ?thesis
    by (auto simp: rewrite_string_operator rewrite_string_no_op [of False])
qed

theorem translate_rewrites_whole_words_witness:
  "clean_query [(''price'', QObj [(''gt'', QStr ''5'')]), (''name'', QStr ''Devworks''),
                (''page'', QStr ''2'')]
   \<and> translate [(''price'', QObj [(''gt'', QStr ''5'')]), (''name'', QStr ''Devworks''),
                (''page'', QStr ''2'')]
     = Inr (QObj [(''price'', QObj [(''$gt'', QStr ''5'')]), (''name'', QStr ''Devworks'')])
   \<and> ''lte'' \<in> set operators
   \<and> rewrite_string False ''lte'' = ''$lte''
   \<and> \<not> has_op False ''gtx''
   \<and> rewrite_string False ''gtx'' = ''gtx''"
proof -
  let ?q = "[(''price'', QObj [(''gt'', QStr ''5'')]), (''name'', QStr ''Devworks''),
             (''page'', QStr ''2'')]"
  have c: "clean_query ?q"
    by code_simp
  have n: "normalise (spec_translate ?q)
             = QObj [(''price'', QObj [(''$gt'', QStr ''5'')]), (''name'', QStr ''Devworks'')]"
    by code_simp
  have o: "''lte'' \<in> set operators"
    by (simp add: operators_def)
  have h: "\<not> has_op False ''gtx''"
    by code_simp
  from translate_rewrites_whole_words [of ?q] c n o h show ?thesis
    by (auto simp del: has_op.simps rewrite_string.simps)
qed

section \<open>Properties of page, limit and the pagination object\<close>

subsection \<open>Rounding\<close>

lemma round_magnitude_exact: "n \<le> 2 ^ 53 \<Longrightarrow> round_magnitude n = Num n"
  by (simp add: round_magnitude_def)

lemma js_round_exact: "\<bar>n\<bar> \<le> 2 ^ 53 \<Longrightarrow> js_round n = Num n"
  by (auto simp: js_round_def round_magnitude_exact)



subsection \<open>Reading a number\<close>












lemma digits_value_snoc:
  "digits_value (ds @ [c]) = 10 * digits_value ds + (int (of_char c) - 48)"
  by (simp add: digits_value_def)

lemma digits_value_nonneg: "list_all is_digit ds \<Longrightarrow> 0 \<le> digits_value ds"
  by (induction ds rule: rev_induct) (auto simp: digits_value_snoc is_digit_def, simp add: digits_value_def)

subsection \<open>The conversion to a string\<close>







subsection \<open>Defaults, start index and answer\<close>











text \<open>The pagination object of every list response is the one computed from the total.\<close>

lemma getBootcamps_pagination:
  assumes "getBootcamps st q = Json code (ListBody s c pgn dat)"
  shows "\<exists>pg lim. page_of q = Inr pg \<and> limit_of q = Inr lim
           \<and> pgn = pagination_result pg lim (js_round (int (length (documents st))))"
  using assms
  by (auto simp: getBootcamps_def Let_def countDocuments_def split: sum.splits)

text \<open>
  Claim C5: for every page, limit and total, with start index \<open>(page - 1) * limit\<close> and
  end index \<open>page * limit\<close>, the pagination object has \<open>next = {page: page + 1, limit}\<close>
  exactly when the end index is below the total and \<open>prev = {page: page - 1, limit}\<close>
  exactly when the start index is positive; for total 57 and limit 25, page 1 has the
  next page 2 and no previous page, and page 3 has the previous page 2 and no next page.
  The arithmetic is that of the numbers of the source; where it is exact, on integers up
  to \<open>2^53\<close>, the conditions and the pages are those of the integers.
\<close>

theorem pagination_next_prev:
  "pg_next (pagination_result pg lim tot)
     = (if js_lt (js_mul pg lim) tot then Some \<lparr>page = js_add pg (Num 1), limit = lim\<rparr> else None)
   \<and> pg_prev (pagination_result pg lim tot)
     = (if js_lt (Num 0) (js_mul (js_sub pg (Num 1)) lim)
        then Some \<lparr>page = js_sub pg (Num 1), limit = lim\<rparr> else None)
   \<and> (\<bar>p\<bar> < 2 ^ 53 \<and> \<bar>p * l\<bar> \<le> 2 ^ 53 \<and> \<bar>(p - 1) * l\<bar> \<le> 2 ^ 53 \<longrightarrow>
        pagination_result (Num p) (Num l) (Num t)
          = \<lparr>pg_next = (if p * l < t then Some \<lparr>page = Num (p + 1), limit = Num l\<rparr> else None),
             pg_prev = (if (p - 1) * l > 0 then Some \<lparr>page = Num (p - 1), limit = Num l\<rparr>
                        else None)\<rparr>)
   \<and> pagination_result (Num 1) (Num 25) (Num 57)
       = \<lparr>pg_next = Some \<lparr>page = Num 2, limit = Num 25\<rparr>, pg_prev = None\<rparr>
   \<and> pagination_result (Num 3) (Num 25) (Num 57)
       = \<lparr>pg_next = None, pg_prev = Some \<lparr>page = Num 2, limit = Num 25\<rparr>\<rparr>"
proof -
  have exact: "pagination_result (Num p) (Num l) (Num t)
          = \<lparr>pg_next = (if p * l < t then Some \<lparr>page = Num (p + 1), limit = Num l\<rparr> else None),
             pg_prev = (if (p - 1) * l > 0 then Some \<lparr>page = Num (p - 1), limit = Num l\<rparr>
                        else None)\<rparr>"
    if "\<bar>p\<bar> < 2 ^ 53" "\<bar>p * l\<bar> \<le> 2 ^ 53" "\<bar>(p - 1) * l\<bar> \<le> 2 ^ 53" for p l t
  proof -
    from that(1) have "\<bar>p + 1\<bar> \<le> 2 ^ 53" "\<bar>p - 1\<bar> \<le> 2 ^ 53" by linarith+
    then have "js_round (p + 1) = Num (p + 1)" "js_round (p - 1) = Num (p - 1)"
      by (simp_all add: js_round_exact)
    moreover from that have "js_round (p * l) = Num (p * l)"
      "js_round ((p - 1) * l) = Num ((p - 1) * l)"
      by (simp_all add: js_round_exact)
    ultimately show ?thesis
      by (simp add: pagination_result_def startIndex_def endIndex_def js_sub_def)
  qed
  have ex1: "pagination_result (Num 1) (Num 25) (Num 57)
       = \<lparr>pg_next = Some \<lparr>page = Num 2, limit = Num 25\<rparr>, pg_prev = None\<rparr>"
    by (subst exact) simp_all
  have ex3: "pagination_result (Num 3) (Num 25) (Num 57)
       = \<lparr>pg_next = None, pg_prev = Some \<lparr>page = Num 2, limit = Num 25\<rparr>\<rparr>"
    by (subst exact) simp_all
  show ?thesis
    using exact [of p l t] ex1 ex3
    by (simp add: pagination_result_def startIndex_def endIndex_def)
qed

theorem pagination_next_prev_witness:
  "\<bar>2 :: int\<bar> < 2 ^ 53 \<and> \<bar>2 * 25 :: int\<bar> \<le> 2 ^ 53 \<and> \<bar>(2 - 1) * 25 :: int\<bar> \<le> 2 ^ 53
   \<and> pagination_result (Num 2) (Num 25) (Num 57)
       = \<lparr>pg_next = Some \<lparr>page = Num 3, limit = Num 25\<rparr>,
          pg_prev = Some \<lparr>page = Num 1, limit = Num 25\<rparr>\<rparr>"
  using pagination_next_prev [of "Num 2" "Num 25" "Num 57" 2 25 57] by simp

text \<open>
  Claim C1 says that the total behind the pagination object is the number of documents
  that match the filter of the request. The handler calls \<open>Bootcamp.countDocuments()\<close>
  without the filter that it hands to \<open>Bootcamp.find\<close>. On a collection of two bootcamps
  of which the filter \<open>name=a\<close> matches one, the request \<open>?name=a&limit=1\<close> is answered with
  the one match and a next page 2, which the total of the matches (1) would not give.
\<close>

theorem getBootcamps_total_ignores_filter:
  "translate [(''name'', QStr ''a''), (''limit'', QStr ''1'')] = Inr (QObj [(''name'', QStr ''a'')])
   \<and> countDocuments
        \<lparr>documents = [''a'', ''b''], matches = (\<lambda>f d. f = QObj [(''name'', QStr d)]),
         shape = (\<lambda>qu ds. case (q_skip qu, q_limit qu) of
                    (Some (Num s), Some (Num l)) \<Rightarrow> take (nat l) (drop (nat s) ds) | _ \<Rightarrow> ds)\<rparr>
       = Num 2
   \<and> countDocuments_matching
        \<lparr>documents = [''a'', ''b''], matches = (\<lambda>f d. f = QObj [(''name'', QStr d)]),
         shape = (\<lambda>qu ds. case (q_skip qu, q_limit qu) of
                    (Some (Num s), Some (Num l)) \<Rightarrow> take (nat l) (drop (nat s) ds) | _ \<Rightarrow> ds)\<rparr>
        (QObj [(''name'', QStr ''a'')]) = Num 1
   \<and> getBootcamps
        \<lparr>documents = [''a'', ''b''], matches = (\<lambda>f d. f = QObj [(''name'', QStr d)]),
         shape = (\<lambda>qu ds. case (q_skip qu, q_limit qu) of
                    (Some (Num s), Some (Num l)) \<Rightarrow> take (nat l) (drop (nat s) ds) | _ \<Rightarrow> ds)\<rparr>
        [(''name'', QStr ''a''), (''limit'', QStr ''1'')]
      = Json 200 (ListBody True 1
          \<lparr>pg_next = Some \<lparr>page = Num 2, limit = Num 1\<rparr>, pg_prev = None\<rparr> [''a''])
   \<and> pagination_result (Num 1) (Num 1) (Num 1) = \<lparr>pg_next = None, pg_prev = None\<rparr>"
  by code_simp

end
